theory Spec2Isabelle
  imports Main "HOL-Library.Word"
begin

unbundle bit_operations_syntax

section \<open>CSI port controller: error status\<close>

type_synonym u8 = "8 word"
type_synonym u32 = "32 word"

text \<open>
  The three status registers of one CSI port, as \<^verbatim>\<open>pp_read\<close> and \<^verbatim>\<open>cil_read\<close>
  return them. The register offsets live in \<^verbatim>\<open>camera/registers.h\<close>, so the
  registers are named symbolically.
\<close>

datatype csi_reg =
    TEGRA_CSI_PIXEL_PARSER_STATUS
  | TEGRA_CSI_CIL_STATUS
  | TEGRA_CSI_CILX_STATUS

datatype csi_io = PpWrite csi_reg u32 | CilWrite csi_reg u32

record csi_port_regs =
  pixel_parser_status :: u32
  cil_status :: u32
  cilx_status :: u32

text \<open>
  \<^verbatim>\<open>tegra_csi_error\<close> (csi.c): every status register is read once and the value read
  is written back to the same register; \<^verbatim>\<open>err\<close> collects the masked bits. The result
  is the return value together with the register writes, in program order.
\<close>

definition tegra_csi_error :: "csi_port_regs \<Rightarrow> u32 \<times> csi_io list" where
  "tegra_csi_error port =
     (let err = 0;
          val = pixel_parser_status port;
          err = err OR (val AND 0x4000);
          w1 = PpWrite TEGRA_CSI_PIXEL_PARSER_STATUS val;
          val = cil_status port;
          err = err OR (val AND 0x02);
          w2 = CilWrite TEGRA_CSI_CIL_STATUS val;
          val = cilx_status port;
          err = err OR (val AND 0x00020020);
          w3 = CilWrite TEGRA_CSI_CILX_STATUS val
      in (err, [w1, w2, w3]))"


section \<open>VI channel: data model\<close>

text \<open>
  \<^verbatim>\<open>mc_common.h\<close>: the capture states, the ring depth and the channel structure. The
  fields of \<^verbatim>\<open>struct tegra_channel\<close> used by the capture engine are kept under their
  own names. Unsigned counters are 32-bit words; the port counts are natural numbers
  (they count CSI blocks); \<^verbatim>\<open>atomic_t is_streaming\<close> only ever holds 0 or 1.
\<close>

datatype channel_capture_state =
  CAPTURE_IDLE | CAPTURE_GOOD | CAPTURE_TIMEOUT | CAPTURE_ERROR

datatype vb2_buffer_state =
  VB2_BUF_STATE_QUEUED | VB2_BUF_STATE_DONE | VB2_BUF_STATE_ERROR

definition QUEUED_BUFFERS :: u32 where
  "QUEUED_BUFFERS = 4"

text \<open>
  Modelled from the spec: \<^verbatim>\<open>PREVIOUS_BUFFER_DEC_INDEX\<close> is defined in the absent
  \<^verbatim>\<open>camera/registers.h\<close>; the specification places the previous slot two positions
  back, and the comment in \<^verbatim>\<open>update_state_to_buffer\<close> says that the save index
  decrements by 2.
\<close>

definition PREVIOUS_BUFFER_DEC_INDEX :: u32 where
  "PREVIOUS_BUFFER_DEC_INDEX = 2"

definition CAMERA_NO_GANG_MODE :: u32 where "CAMERA_NO_GANG_MODE = 0"
definition CAMERA_GANG_L_R :: u32 where "CAMERA_GANG_L_R = 1"
definition CAMERA_GANG_T_B :: u32 where "CAMERA_GANG_T_B = 2"
definition CAMERA_GANG_R_L :: u32 where "CAMERA_GANG_R_L = 3"
definition CAMERA_GANG_B_T :: u32 where "CAMERA_GANG_B_T = 4"

text \<open>
  The remaining constants and macros of \<^verbatim>\<open>camera/registers.h\<close> and
  \<^verbatim>\<open>camera/core.h\<close>, which are not among the sources, are parameters of the model.
\<close>

record headers =
  TEGRA_SURFACE_ALIGNMENT :: u32
  IMAGE_SIZE_HEIGHT_OFFSET :: nat
  IMAGE_DEF_FORMAT_OFFSET :: nat
  BYPASS_PXL_TRANSFORM_OFFSET :: nat
  IMAGE_DEF_DEST_MEM :: u32
  SINGLE_SHOT_CAPTURE :: u32
  SYNCPT_FIFO_DEPTH :: u32
  VI_CSI_PP_FRAME_START :: "u8 \<Rightarrow> u32"
  VI_CSI_MW_ACK_DONE :: "u8 \<Rightarrow> u32"
  VI_CFG_VI_INCR_SYNCPT_COND :: "u32 \<Rightarrow> u32"
  TEGRA_VF_YUV422 :: u32
  TEGRA_VF_RGB888 :: u32

datatype vi_csi_reg =
    TEGRA_VI_CSI_ERROR_STATUS
  | TEGRA_VI_CSI_IMAGE_DEF
  | TEGRA_VI_CSI_IMAGE_DT
  | TEGRA_VI_CSI_IMAGE_SIZE_WC
  | TEGRA_VI_CSI_IMAGE_SIZE
  | TEGRA_VI_CSI_SW_RESET
  | TEGRA_VI_CSI_SURFACE0_OFFSET_MSB
  | TEGRA_VI_CSI_SURFACE0_OFFSET_LSB
  | TEGRA_VI_CSI_SURFACE0_STRIDE
  | TEGRA_VI_CSI_SINGLE_SHOT

datatype vi_cfg_reg =
    TEGRA_VI_CFG_VI_INCR_SYNCPT_CNTRL
  | TEGRA_VI_CFG_VI_INCR_SYNCPT_ERROR
  | TEGRA_VI_CFG_VI_INCR_SYNCPT
  | TEGRA_VI_CFG_CG_CTRL

text \<open>
  Calls that leave the channel structure are recorded, in program order, in the
  \<open>trace\<close> of the channel: register writes, calls into the CSI port controller, the
  host1x sync points, the sub-devices and videobuf2. A constructor carries the name
  of the function called and the arguments that identify the call; a buffer is
  identified by the number \<open>buf\<close> (the address of its \<^verbatim>\<open>vb2_buffer\<close>).
\<close>

datatype call =
    vb2_buffer_done nat vb2_buffer_state
  | csi_write nat vi_csi_reg u32
  | tegra_channel_write vi_cfg_reg u32
  | tegra_csi_error_recover u8
  | tegra_csi_status u8
  | tegra_csi_error_io u8 csi_io
  | tegra_csi_start_streaming u8
  | tegra_csi_stop_streaming u8
  | tegra_csi_tpg_start_streaming u8
  | tegra_csi_pad_control "u8 list" bool
  | nvhost_syncpt_incr_max_ext u32
  | nvhost_syncpt_wait_timeout_ext u32 u32
  | nvhost_syncpt_set_min_eq_max_ext u32
  | s_stream bool
  | media_entity_pipeline_start
  | media_entity_pipeline_stop
  | tegra_mipi_bias_pad_enable
  | tegra_mipi_bias_pad_disable
  | tegra_channel_mipi_cal bool
  | nvhost_module_enable_clk
  | nvhost_module_disable_clk
  | kthread_run
  | kthread_stop
  | update_isobw_and_clk

record v4l2_pix_format =
  width :: u32
  height :: u32
  bytesperline :: u32
  sizeimage :: u32

text \<open>\<^verbatim>\<open>struct tegra_video_format\<close>; its field \<^verbatim>\<open>width\<close> (bits per pixel on the bus) is
  \<open>fmt_width\<close> here, since \<open>width\<close> is the frame width of the pixel format.\<close>

record tegra_video_format =
  vf_code :: u32
  fmt_width :: u32
  bpp :: u32
  img_fmt :: u32
  img_dt :: u32

record tegra_channel_buffer =
  buf :: nat
  addr :: u32

datatype task = NoTask | Task | ErrPtr

record tegra_channel =
  format :: v4l2_pix_format
  fmtinfo :: tegra_video_format
  port :: "u8 list"
  syncpt :: "u32 list"
  syncpoint_fifo :: "u32 list"
  buffer_offset :: "u32 list"
  buffer_state :: "vb2_buffer_state list"
  buffers :: "nat list"
  timeout :: u32
  save_index :: u32
  free_index :: u32
  num_buffers :: u32
  released_bufs :: u32
  kthread_capture_start :: task
  capture :: "tegra_channel_buffer list"
  valid_ports :: nat
  total_ports :: nat
  numlanes :: u32
  sequence :: u32
  gang_mode :: u32
  gang_width :: u32
  gang_height :: u32
  gang_bytesperline :: u32
  gang_sizeimage :: u32
  bypass :: bool
  bfirst_fstart :: bool
  capture_state :: channel_capture_state
  is_streaming :: bool
  requested_kbyteps :: u32
  requested_hz :: u32
  pg_mode :: bool
  kthread_err :: int
  trace :: "call list"

text \<open>
  Two fields are not fields of \<^verbatim>\<open>struct tegra_channel\<close>: \<open>pg_mode\<close> is
  \<^verbatim>\<open>chan->vi->pg_mode\<close>, and \<open>kthread_err\<close> is the local variable \<^verbatim>\<open>err\<close> of the
  capture thread \<^verbatim>\<open>tegra_channel_kthread_capture_start\<close>. \<open>requested_kbyteps\<close> holds the
  32 bits of the C \<^verbatim>\<open>int\<close>.

  What the hardware and the other subsystems answer during one call is an input of
  the model: the result of each sync point wait (by port index), the values read
  from the VI and CSI registers, and the return values of the sub-device stream
  call, of the pipeline start and of the thread creation.
\<close>

record hw =
  syncpt_wait :: "nat \<Rightarrow> int"
  syncpt_thresh :: "nat \<Rightarrow> u32"
  vi_csi_error_status :: "nat \<Rightarrow> u32"
  vi_csi_image_def :: "nat \<Rightarrow> u32"
  vi_csi_single_shot :: "nat \<Rightarrow> u32"
  vi_incr_syncpt_error :: u32
  csi_port_regs :: "u8 \<Rightarrow> csi_port_regs"
  s_stream_ret :: int
  pipeline_start_ret :: int
  kthread_run_ret :: int

definition emit :: "call list \<Rightarrow> tegra_channel \<Rightarrow> tegra_channel" where
  "emit cs chan = chan\<lparr>trace := trace chan @ cs\<rparr>"


section \<open>Ring buffer operations\<close>

definition tegra_channel_init_ring_buffer :: "tegra_channel \<Rightarrow> tegra_channel" where
  "tegra_channel_init_ring_buffer chan =
     chan\<lparr>released_bufs := 0, num_buffers := 0, save_index := 0, free_index := 0,
            bfirst_fstart := False\<rparr>"

text \<open>
  One pass of the \<^verbatim>\<open>while (frames)\<close> loop of \<^verbatim>\<open>free_ring_buffers\<close>. The sequence
  number, field and payload written into the buffer are not modelled beyond the
  channel's \<open>sequence\<close> counter.
\<close>

definition free_ring_buffers_body :: "tegra_channel \<Rightarrow> tegra_channel" where
  "free_ring_buffers_body chan =
     (let vb = buffers chan ! unat (free_index chan);
          chan = chan\<lparr>sequence := sequence chan + 1\<rparr>;
          chan = (if capture_state chan \<noteq> CAPTURE_GOOD \<or> released_bufs chan < 2
                  then chan\<lparr>buffer_state :=
                         (buffer_state chan)[unat (free_index chan) := VB2_BUF_STATE_ERROR]\<rparr>
                  else chan);
          chan = emit [vb2_buffer_done vb (buffer_state chan ! unat (free_index chan))] chan;
          chan = chan\<lparr>free_index := free_index chan + 1\<rparr>;
          chan = (if free_index chan \<ge> QUEUED_BUFFERS then chan\<lparr>free_index := 0\<rparr>
                  else chan);
          chan = chan\<lparr>num_buffers := num_buffers chan - 1\<rparr>;
          chan = chan\<lparr>released_bufs := released_bufs chan + 1\<rparr>
      in chan)"

text \<open>
  \<^verbatim>\<open>free_ring_buffers(chan, frames)\<close>: the callers pass 1 or \<^verbatim>\<open>chan->num_buffers\<close>, so
  \<open>frames\<close> is a natural number.
\<close>

fun free_ring_buffers :: "tegra_channel \<Rightarrow> nat \<Rightarrow> tegra_channel" where
  "free_ring_buffers chan 0 = chan"
| "free_ring_buffers chan (Suc frames) = free_ring_buffers (free_ring_buffers_body chan) frames"

definition add_buffer_to_ring :: "tegra_channel \<Rightarrow> nat \<Rightarrow> tegra_channel" where
  "add_buffer_to_ring chan vb =
     (let chan = chan\<lparr>buffer_state :=
                   (buffer_state chan)[unat (save_index chan) := VB2_BUF_STATE_ERROR]\<rparr>;
          chan = chan\<lparr>buffers := (buffers chan)[unat (save_index chan) := vb],
                      save_index := save_index chan + 1\<rparr>;
          chan = (if save_index chan \<ge> QUEUED_BUFFERS then chan\<lparr>save_index := 0\<rparr>
                  else chan)
      in chan\<lparr>num_buffers := num_buffers chan + 1\<rparr>)"

text \<open>
  \<^verbatim>\<open>update_state_to_buffer\<close>: the local \<^verbatim>\<open>save_index\<close> is a C \<^verbatim>\<open>int\<close>, so the
  difference is read as a signed value before the test against 0.
\<close>

definition update_state_to_buffer :: "tegra_channel \<Rightarrow> vb2_buffer_state \<Rightarrow> tegra_channel" where
  "update_state_to_buffer chan state =
     (let save_idx = save_index chan - PREVIOUS_BUFFER_DEC_INDEX;
          save_idx = (if save_idx <s 0 then save_idx + QUEUED_BUFFERS else save_idx);
          chan = chan\<lparr>buffer_state := (buffer_state chan)[unat save_idx := state]\<rparr>
      in if capture_state chan \<noteq> CAPTURE_GOOD
         then chan\<lparr>buffer_state := (buffer_state chan)[unat (save_index chan) := state]\<rparr>
         else chan)"

text \<open>
  \<^verbatim>\<open>tegra_channel_ring_buffer\<close>; the time stamp written into the buffer is not
  modelled, so the buffer argument is not needed.
\<close>

definition tegra_channel_ring_buffer :: "tegra_channel \<Rightarrow> vb2_buffer_state \<Rightarrow> tegra_channel" where
  "tegra_channel_ring_buffer chan state =
     (let chan = (if \<not> bfirst_fstart chan then chan\<lparr>bfirst_fstart := True\<rparr>
                  else update_state_to_buffer chan state)
      in if capture_state chan \<noteq> CAPTURE_GOOD
         then tegra_channel_init_ring_buffer
                (free_ring_buffers chan (unat (num_buffers chan)))
         else if num_buffers chan \<ge> QUEUED_BUFFERS - 1
         then free_ring_buffers chan 1
         else chan)"


section \<open>Gang mode geometry and capture setup\<close>

text \<open>
  \<^verbatim>\<open>gang_buffer_offsets\<close>: the loop runs over \<^verbatim>\<open>total_ports\<close>; the product
  \<^verbatim>\<open>i * offset\<close> is computed in 32-bit unsigned arithmetic.
\<close>

definition gang_buffer_offsets :: "headers \<Rightarrow> tegra_channel \<Rightarrow> tegra_channel" where
  "gang_buffer_offsets rh chan =
     fold (\<lambda>i chan.
        let offset =
              (if gang_mode chan = CAMERA_NO_GANG_MODE \<or> gang_mode chan = CAMERA_GANG_L_R
                  \<or> gang_mode chan = CAMERA_GANG_R_L
               then gang_bytesperline chan
               else if gang_mode chan = CAMERA_GANG_T_B \<or> gang_mode chan = CAMERA_GANG_B_T
               then gang_sizeimage chan
               else 0);
            offset = (offset + TEGRA_SURFACE_ALIGNMENT rh - 1)
                       AND NOT (TEGRA_SURFACE_ALIGNMENT rh - 1)
        in chan\<lparr>buffer_offset := (buffer_offset chan)[i := of_nat i * offset]\<rparr>)
       [0..<total_ports chan] chan"

definition gang_mode_width :: "u32 \<Rightarrow> u32 \<Rightarrow> u32" where
  "gang_mode_width gm w =
     (if gm = CAMERA_GANG_L_R \<or> gm = CAMERA_GANG_R_L then drop_bit 1 w else w)"

definition gang_mode_height :: "u32 \<Rightarrow> u32 \<Rightarrow> u32" where
  "gang_mode_height gm h =
     (if gm = CAMERA_GANG_T_B \<or> gm = CAMERA_GANG_B_T then drop_bit 1 h else h)"

definition update_gang_mode_params :: "headers \<Rightarrow> tegra_channel \<Rightarrow> tegra_channel" where
  "update_gang_mode_params rh chan =
     (let chan = chan\<lparr>gang_width := gang_mode_width (gang_mode chan) (width (format chan))\<rparr>;
          chan = chan\<lparr>gang_height := gang_mode_height (gang_mode chan) (height (format chan))\<rparr>;
          chan = chan\<lparr>gang_bytesperline := gang_width chan * bpp (fmtinfo chan)\<rparr>;
          chan = chan\<lparr>gang_sizeimage := gang_bytesperline chan * height (format chan)\<rparr>
      in gang_buffer_offsets rh chan)"

text \<open>
  \<^verbatim>\<open>update_gang_mode\<close> copies width and height into C \<^verbatim>\<open>int\<close> variables, so the
  comparisons with 1920 and 1080 are signed.
\<close>

definition update_gang_mode :: "headers \<Rightarrow> tegra_channel \<Rightarrow> tegra_channel" where
  "update_gang_mode rh chan =
     (let chan = (if 1920 <s width (format chan) \<and> 1080 <s height (format chan)
                  then chan\<lparr>gang_mode := CAMERA_GANG_L_R, valid_ports := total_ports chan\<rparr>
                  else chan\<lparr>gang_mode := CAMERA_NO_GANG_MODE, valid_ports := 1\<rparr>)
      in update_gang_mode_params rh chan)"

definition tegra_core_get_word_count :: "u32 \<Rightarrow> tegra_video_format \<Rightarrow> u32" where
  "tegra_core_get_word_count frame_width fmt = frame_width * fmt_width fmt div 8"

definition tegra_channel_capture_setup :: "headers \<Rightarrow> tegra_channel \<Rightarrow> int \<times> tegra_channel" where
  "tegra_channel_capture_setup rh chan =
     (let height' = height (format chan);
          width' = width (format chan);
          format' = img_fmt (fmtinfo chan);
          data_type = img_dt (fmtinfo chan);
          word_count = tegra_core_get_word_count width' (fmtinfo chan);
          bypass_pixel_transform = (1 :: u32);
          (height', width', word_count) =
             (if valid_ports chan > 1
              then (gang_height chan, gang_width chan,
                    tegra_core_get_word_count (gang_width chan) (fmtinfo chan))
              else (height', width', word_count));
          bypass_pixel_transform =
             (if pg_mode chan \<or> vf_code (fmtinfo chan) = TEGRA_VF_YUV422 rh
                 \<or> vf_code (fmtinfo chan) = TEGRA_VF_RGB888 rh
              then 0 else bypass_pixel_transform)
      in (0, fold (\<lambda>index. emit
                [csi_write index TEGRA_VI_CSI_ERROR_STATUS 0xFFFFFFFF,
                 csi_write index TEGRA_VI_CSI_IMAGE_DEF
                   (push_bit (BYPASS_PXL_TRANSFORM_OFFSET rh) bypass_pixel_transform
                      OR push_bit (IMAGE_DEF_FORMAT_OFFSET rh) format'),
                 csi_write index TEGRA_VI_CSI_IMAGE_DT data_type,
                 csi_write index TEGRA_VI_CSI_IMAGE_SIZE_WC word_count,
                 csi_write index TEGRA_VI_CSI_IMAGE_SIZE
                   (push_bit (IMAGE_SIZE_HEIGHT_OFFSET rh) height' OR width')])
            [0..<valid_ports chan] chan))"

section \<open>Streaming control, error status and recovery\<close>

definition tegra_channel_set_stream :: "hw \<Rightarrow> tegra_channel \<Rightarrow> bool \<Rightarrow> int \<times> tegra_channel" where
  "tegra_channel_set_stream h chan on =
     (if is_streaming chan = on then (0, chan)
      else let chan = emit [s_stream on] chan;
               ret = s_stream_ret h
           in if ret \<noteq> 0 then (ret, chan) else (0, chan\<lparr>is_streaming := on\<rparr>))"

definition tegra_channel_enable_stream :: "hw \<Rightarrow> tegra_channel \<Rightarrow> int \<times> tegra_channel" where
  "tegra_channel_enable_stream h chan =
     (let chan = emit [tegra_csi_pad_control (port chan) True] chan;
          calibrate = (\<lambda>ret chan.
             let chan = emit [tegra_mipi_bias_pad_enable] chan;
                 chan = (if \<not> pg_mode chan then emit [tegra_channel_mipi_cal False] chan
                         else chan)
             in (ret, chan))
      in if pg_mode chan
         then calibrate 0
                ((fold (\<lambda>i chan. emit [tegra_csi_tpg_start_streaming (port chan ! i)] chan)
                    [0..<valid_ports chan] chan)\<lparr>is_streaming := True\<rparr>)
         else let (ret, chan) = tegra_channel_set_stream h chan True
              in if ret < 0 then (ret, chan) else calibrate ret chan)"

text \<open>
  \<^verbatim>\<open>tegra_channel_error_status\<close>: \<^verbatim>\<open>err\<close> is a C \<^verbatim>\<open>int\<close> that is only or-ed into
  and tested against 0; it is kept as its 32 bits. \<open>error_status_port\<close> is the body
  of the loop over the valid ports.
\<close>

definition error_status_port :: "hw \<Rightarrow> nat \<Rightarrow> u32 \<times> tegra_channel \<Rightarrow> u32 \<times> tegra_channel" where
  "error_status_port h index = (\<lambda>(err, chan).
        let val = vi_csi_error_status h index;
            chan = emit [csi_write index TEGRA_VI_CSI_ERROR_STATUS val] chan;
            err = err OR val;
            (e, ios) = tegra_csi_error (csi_port_regs h (port chan ! index));
            chan = emit (map (tegra_csi_error_io (port chan ! index)) ios) chan;
            err = err OR e
        in (err, chan))"

definition tegra_channel_error_status :: "hw \<Rightarrow> tegra_channel \<Rightarrow> u32 \<times> tegra_channel" where
  "tegra_channel_error_status h chan =
     fold (error_status_port h) [0..<valid_ports chan] (0, chan)"

definition tegra_channel_capture_error :: "tegra_channel \<Rightarrow> tegra_channel" where
  "tegra_channel_capture_error chan =
     fold (\<lambda>index chan. emit [tegra_csi_status (port chan ! index)] chan)
       [0..<valid_ports chan] chan"

definition tegra_channel_clear_singleshot :: "tegra_channel \<Rightarrow> nat \<Rightarrow> tegra_channel" where
  "tegra_channel_clear_singleshot chan index =
     emit [csi_write index TEGRA_VI_CSI_SW_RESET 0xF,
           csi_write index TEGRA_VI_CSI_SW_RESET 0x0] chan"

definition tegra_channel_vi_csi_recover :: "headers \<Rightarrow> hw \<Rightarrow> tegra_channel \<Rightarrow> tegra_channel" where
  "tegra_channel_vi_csi_recover rh h chan =
     (let error_val = vi_incr_syncpt_error h;
          valid_ports' = valid_ports chan;
          chan = emit [tegra_csi_pad_control (port chan) False,
                       tegra_channel_write TEGRA_VI_CFG_CG_CTRL 0] chan;
          chan = fold (\<lambda>index chan.
                   tegra_channel_clear_singleshot
                     (emit [tegra_csi_error_recover (port chan ! index),
                            csi_write index TEGRA_VI_CSI_IMAGE_DEF 0] chan) index)
                  [0..<valid_ports'] chan;
          chan = fold (\<lambda>index chan.
                   let frame_start = VI_CSI_PP_FRAME_START rh (port chan ! index)
                   in if error_val AND frame_start \<noteq> 0
                      then chan\<lparr>syncpoint_fifo :=
                             (syncpoint_fifo chan)[index := SYNCPT_FIFO_DEPTH rh]\<rparr>
                      else chan)
                  [0..<valid_ports'] chan;
          chan = emit [tegra_channel_write TEGRA_VI_CFG_VI_INCR_SYNCPT_ERROR error_val,
                       tegra_channel_write TEGRA_VI_CFG_CG_CTRL 1] chan;
          chan = snd (tegra_channel_capture_setup rh chan)
      in fold (\<lambda>index chan.
            emit [tegra_csi_stop_streaming (port chan ! index),
                  tegra_csi_start_streaming (port chan ! index),
                  nvhost_syncpt_set_min_eq_max_ext (syncpt chan ! index)] chan)
           [0..<valid_ports'] chan)"

definition tegra_channel_ec_recover :: "headers \<Rightarrow> hw \<Rightarrow> tegra_channel \<Rightarrow> tegra_channel" where
  "tegra_channel_ec_recover rh h chan =
     tegra_channel_vi_csi_recover rh h (tegra_channel_capture_error chan)"


section \<open>Frame capture\<close>

text \<open>
  The first loop of \<^verbatim>\<open>tegra_channel_capture_frame\<close>: surface registers and sync
  point arming of one port. The threshold returned by
  \<^verbatim>\<open>nvhost_syncpt_incr_max_ext\<close> is an input (\<open>syncpt_thresh\<close>).
\<close>

definition capture_frame_program :: "headers \<Rightarrow> tegra_channel_buffer \<Rightarrow> nat \<Rightarrow> tegra_channel \<Rightarrow> tegra_channel" where
  "capture_frame_program rh b index chan =
     (let chan = emit
            [csi_write index TEGRA_VI_CSI_SURFACE0_OFFSET_MSB 0x0,
             csi_write index TEGRA_VI_CSI_SURFACE0_OFFSET_LSB
               (addr b + buffer_offset chan ! index),
             csi_write index TEGRA_VI_CSI_SURFACE0_STRIDE (bytesperline (format chan)),
             nvhost_syncpt_incr_max_ext (syncpt chan ! index)] chan
      in if syncpoint_fifo chan ! index = 0
         then let frame_start = VI_CSI_PP_FRAME_START rh (port chan ! index);
                  val = VI_CFG_VI_INCR_SYNCPT_COND rh frame_start OR syncpt chan ! index
              in emit [tegra_channel_write TEGRA_VI_CFG_VI_INCR_SYNCPT val] chan
         else chan\<lparr>syncpoint_fifo :=
                (syncpoint_fifo chan)[index := syncpoint_fifo chan ! index - 1]\<rparr>)"

text \<open>
  The sync point wait loop with its \<^verbatim>\<open>break\<close>: the result is the last value of
  \<^verbatim>\<open>err\<close>, the buffer state and the channel. \<open>recover\<close> is what the loop runs on a
  timeout before it sets \<^verbatim>\<open>CAPTURE_TIMEOUT\<close>.
\<close>

fun syncpt_wait_loop ::
  "hw \<Rightarrow> (tegra_channel \<Rightarrow> tegra_channel) \<Rightarrow> nat list \<Rightarrow> int \<Rightarrow> vb2_buffer_state \<Rightarrow> tegra_channel
     \<Rightarrow> int \<times> vb2_buffer_state \<times> tegra_channel" where
  "syncpt_wait_loop h recover [] err state chan = (err, state, chan)"
| "syncpt_wait_loop h recover (index # rest) err state chan =
     (let chan = emit [nvhost_syncpt_wait_timeout_ext (syncpt chan ! index)
                         (syncpt_thresh h index)] chan;
          err = syncpt_wait h index
      in if err \<noteq> 0
         then (err, VB2_BUF_STATE_ERROR, (recover chan)\<lparr>capture_state := CAPTURE_TIMEOUT\<rparr>)
         else syncpt_wait_loop h recover rest err state chan)"

definition tegra_channel_capture_frame ::
  "headers \<Rightarrow> hw \<Rightarrow> tegra_channel \<Rightarrow> tegra_channel_buffer \<Rightarrow> int \<times> tegra_channel" where
  "tegra_channel_capture_frame rh h chan b =
     (let valid_ports' = valid_ports chan;
          state = VB2_BUF_STATE_DONE;
          chan = fold (capture_frame_program rh b) [0..<valid_ports'] chan;
          (err, chan) = (if \<not> bfirst_fstart chan then tegra_channel_enable_stream h chan
                         else (0, chan))
      in if \<not> bfirst_fstart chan \<and> err \<noteq> 0
         then (err, tegra_channel_ring_buffer (chan\<lparr>capture_state := CAPTURE_ERROR\<rparr>)
                      VB2_BUF_STATE_ERROR)
         else
           let chan = (if \<not> bfirst_fstart chan
                       then fold (\<lambda>index. emit
                              [csi_write index TEGRA_VI_CSI_IMAGE_DEF
                                 (vi_csi_image_def h index OR IMAGE_DEF_DEST_MEM rh)])
                              [0..<valid_ports'] chan
                       else chan);
               chan = fold (\<lambda>index. emit
                        [csi_write index TEGRA_VI_CSI_SINGLE_SHOT (SINGLE_SHOT_CAPTURE rh)])
                        [0..<valid_ports'] chan;
               chan = chan\<lparr>capture_state := CAPTURE_GOOD\<rparr>;
               (err, state, chan) =
                  syncpt_wait_loop h (tegra_channel_ec_recover rh h) [0..<valid_ports']
                    err state chan;
               (state, chan) =
                  (if err = 0 \<and> \<not> pg_mode chan
                   then let (err', chan) = tegra_channel_error_status h chan
                        in if err' \<noteq> 0
                           then (VB2_BUF_STATE_ERROR, chan\<lparr>capture_state := CAPTURE_ERROR\<rparr>)
                           else (state, chan)
                   else (state, chan))
           in (0, tegra_channel_ring_buffer chan state))"

definition dequeue_buffer :: "tegra_channel \<Rightarrow> tegra_channel_buffer option \<times> tegra_channel" where
  "dequeue_buffer chan =
     (case capture chan of
        [] \<Rightarrow> (None, chan)
      | b # rest \<Rightarrow> (Some b, add_buffer_to_ring (chan\<lparr>capture := rest\<rparr>) (buf b)))"

definition capture_done_program :: "headers \<Rightarrow> tegra_channel_buffer \<Rightarrow> nat \<Rightarrow> tegra_channel \<Rightarrow> tegra_channel" where
  "capture_done_program rh b index chan =
     (let mw_ack_done = VI_CSI_MW_ACK_DONE rh (port chan ! index);
          val = VI_CFG_VI_INCR_SYNCPT_COND rh mw_ack_done OR syncpt chan ! index
      in emit
           [csi_write index TEGRA_VI_CSI_SURFACE0_OFFSET_MSB 0x0,
            csi_write index TEGRA_VI_CSI_SURFACE0_OFFSET_LSB
              (addr b + buffer_offset chan ! index),
            csi_write index TEGRA_VI_CSI_SURFACE0_STRIDE (bytesperline (format chan)),
            nvhost_syncpt_incr_max_ext (syncpt chan ! index),
            tegra_channel_write TEGRA_VI_CFG_VI_INCR_SYNCPT val,
            csi_write index TEGRA_VI_CSI_SINGLE_SHOT (SINGLE_SHOT_CAPTURE rh)] chan)"

definition tegra_channel_capture_done :: "headers \<Rightarrow> hw \<Rightarrow> tegra_channel \<Rightarrow> tegra_channel" where
  "tegra_channel_capture_done rh h chan =
     (case dequeue_buffer chan of
        (None, chan) \<Rightarrow> chan
      | (Some b, chan) \<Rightarrow>
          let chan = fold (capture_done_program rh b) [0..<valid_ports chan] chan;
              (err, state, chan) =
                 syncpt_wait_loop h (tegra_channel_ec_recover rh h) [0..<valid_ports chan]
                   0 VB2_BUF_STATE_DONE chan;
              chan = chan\<lparr>capture_state := CAPTURE_IDLE\<rparr>
          in tegra_channel_ring_buffer chan state)"

text \<open>
  One pass of the loop of \<^verbatim>\<open>tegra_channel_kthread_capture_start\<close> after it has been
  woken up without a stop request: nothing is dequeued once a capture has returned
  an error, and nothing happens on an empty queue.
\<close>

definition kthread_capture_iteration :: "headers \<Rightarrow> hw \<Rightarrow> tegra_channel \<Rightarrow> tegra_channel" where
  "kthread_capture_iteration rh h chan =
     (if kthread_err chan \<noteq> 0 then chan
      else case dequeue_buffer chan of
             (None, chan) \<Rightarrow> chan
           | (Some b, chan) \<Rightarrow>
               let (err, chan) = tegra_channel_capture_frame rh h chan b
               in chan\<lparr>kthread_err := err\<rparr>)"

definition tegra_channel_stop_kthreads :: "tegra_channel \<Rightarrow> tegra_channel" where
  "tegra_channel_stop_kthreads chan =
     (if kthread_capture_start chan \<noteq> NoTask
      then (emit [kthread_stop] chan)\<lparr>kthread_capture_start := NoTask\<rparr>
      else chan)"

section \<open>videobuf2 queue operations\<close>

definition tegra_channel_buffer_queue :: "tegra_channel \<Rightarrow> tegra_channel_buffer \<Rightarrow> tegra_channel" where
  "tegra_channel_buffer_queue chan b =
     (if bypass chan then chan else chan\<lparr>capture := capture chan @ [b]\<rparr>)"

definition tegra_channel_queued_buf_done :: "tegra_channel \<Rightarrow> vb2_buffer_state \<Rightarrow> tegra_channel" where
  "tegra_channel_queued_buf_done chan state =
     (emit (map (\<lambda>b. vb2_buffer_done (buf b) state) (capture chan)) chan)\<lparr>capture := []\<rparr>"

text \<open>
  \<^verbatim>\<open>tegra_channel_update_clknbw\<close>: \<^verbatim>\<open>FRAMERATE\<close> is 30 and \<^verbatim>\<open>BPP_MEM\<close> is 2; the
  products are 32-bit unsigned. The aggregated bandwidth it adds to belongs to
  \<^verbatim>\<open>struct tegra_mc_vi\<close>, and the update is recorded as one call.
\<close>

definition tegra_channel_update_clknbw :: "tegra_channel \<Rightarrow> u8 \<Rightarrow> tegra_channel" where
  "tegra_channel_update_clknbw chan on =
     (let chan = chan\<lparr>requested_kbyteps :=
                   (if on > 0 then 1 else - 1)
                     * ((width (format chan) * height (format chan) * 30 * 2) div 1000)\<rparr>;
          chan = chan\<lparr>requested_hz :=
                   (if on > 0 then width (format chan) * height (format chan) * 30 else 0)\<rparr>
      in emit [update_isobw_and_clk] chan)"

definition tegra_channel_ec_init :: "tegra_channel \<Rightarrow> tegra_channel" where
  "tegra_channel_ec_init chan =
     emit [tegra_channel_write TEGRA_VI_CFG_VI_INCR_SYNCPT_CNTRL 0x100] (chan\<lparr>timeout := 20\<rparr>)"

definition tegra_channel_start_streaming :: "headers \<Rightarrow> hw \<Rightarrow> tegra_channel \<Rightarrow> int \<times> tegra_channel" where
  "tegra_channel_start_streaming rh h chan =
     (let error_pipeline_start = (\<lambda>ret chan.
             (ret, tegra_channel_queued_buf_done chan VB2_BUF_STATE_QUEUED));
          error_set_stream = (\<lambda>ret chan.
             error_pipeline_start ret
               (if \<not> pg_mode chan then emit [media_entity_pipeline_stop] chan else chan));
          error_capture_setup = (\<lambda>ret chan.
             error_set_stream ret
               (if \<not> pg_mode chan then snd (tegra_channel_set_stream h chan False) else chan));
          chan = tegra_channel_ec_init chan;
          (ret, chan) = (if \<not> pg_mode chan
                         then (pipeline_start_ret h, emit [media_entity_pipeline_start] chan)
                         else (0, chan))
      in if \<not> pg_mode chan \<and> ret < 0 then error_pipeline_start ret chan
         else if bypass chan
         then let (ret, chan) = tegra_channel_set_stream h chan True
              in if ret < 0 then error_set_stream ret chan
                 else (ret, emit [nvhost_module_enable_clk, tegra_mipi_bias_pad_enable,
                                  tegra_channel_mipi_cal True, nvhost_module_disable_clk] chan)
         else
           let chan = chan\<lparr>capture_state := CAPTURE_IDLE\<rparr>;
               chan = fold (\<lambda>i chan. emit
                        [tegra_csi_start_streaming (port chan ! i),
                         nvhost_syncpt_set_min_eq_max_ext (syncpt chan ! i)] chan)
                        [0..<valid_ports chan] chan;
               (ret, chan) = tegra_channel_capture_setup rh chan
           in if ret < 0 then error_capture_setup ret chan
              else
                let chan = chan\<lparr>sequence := 0\<rparr>;
                    chan = tegra_channel_init_ring_buffer chan;
                    chan = tegra_channel_update_clknbw chan 1;
                    chan = emit [kthread_run] chan
                in if kthread_run_ret h \<noteq> 0
                   then error_capture_setup (kthread_run_ret h)
                          (chan\<lparr>kthread_capture_start := ErrPtr\<rparr>)
                   else (0, chan\<lparr>kthread_capture_start := Task, kthread_err := 0\<rparr>))"

definition tegra_channel_stop_streaming :: "headers \<Rightarrow> hw \<Rightarrow> tegra_channel \<Rightarrow> int \<times> tegra_channel" where
  "tegra_channel_stop_streaming rh h chan =
     (let is_streaming' = is_streaming chan;
          chan =
            (if \<not> bypass chan
             then
               let chan = tegra_channel_stop_kthreads chan;
                   chan = (if is_streaming' \<and> capture_state chan = CAPTURE_GOOD
                           then tegra_channel_capture_done rh h chan else chan);
                   chan = free_ring_buffers chan (unat (num_buffers chan));
                   chan = tegra_channel_queued_buf_done chan VB2_BUF_STATE_ERROR;
                   chan = emit [tegra_channel_write TEGRA_VI_CFG_CG_CTRL 0] chan;
                   chan = fold (\<lambda>index chan.
                            let chan = emit [tegra_csi_stop_streaming (port chan ! index)] chan
                            in if vi_csi_single_shot h index \<noteq> 0
                               then tegra_channel_clear_singleshot chan index else chan)
                            [0..<valid_ports chan] chan
               in emit [tegra_channel_write TEGRA_VI_CFG_CG_CTRL 1,
                        tegra_csi_pad_control (port chan) False] chan
             else chan);
          chan = (if \<not> pg_mode chan
                  then emit [media_entity_pipeline_stop]
                         (snd (tegra_channel_set_stream h chan False))
                  else chan);
          chan = (if \<not> bypass chan then tegra_channel_update_clknbw chan 0 else chan)
      in (0, emit [tegra_mipi_bias_pad_disable] chan))"


section \<open>Port information from the device tree\<close>

text \<open>
  A device-tree node with its name (possibly absent), its properties (each a list
  of 32-bit cells) and its children, in order.
\<close>

datatype device_node =
  Node (node_name: "string option") (properties: "(string \<times> u32 list) list")
       (child_nodes: "device_node list")

definition EINVAL :: int where "EINVAL = 22"
definition ENODATA :: int where "ENODATA = 61"

text \<open>
  The kernel's \<^verbatim>\<open>of_node_cmp\<close> compares node names without regard to case
  (\<^verbatim>\<open>strcasecmp\<close>); only whether its result is 0 is used.
\<close>

definition tolower :: "char \<Rightarrow> char" where
  "tolower c = (let n = of_char c :: nat in if 65 \<le> n \<and> n \<le> 90 then char_of (n + 32) else c)"

definition of_node_cmp :: "string \<Rightarrow> string \<Rightarrow> int" where
  "of_node_cmp s1 s2 = (if map tolower s1 = map tolower s2 then 0 else 1)"

text \<open>
  The kernel's \<^verbatim>\<open>of_property_read_u32(np, propname, &value)\<close>: the result is the
  return code and the content of \<^verbatim>\<open>value\<close> afterwards, which is left as it was
  when the property is missing or has no cell. The driver passes the address of a
  C \<^verbatim>\<open>int\<close>, so the cell is read back as a signed value.
\<close>

definition of_property_read_u32 :: "device_node \<Rightarrow> string \<Rightarrow> int \<Rightarrow> int \<times> int" where
  "of_property_read_u32 np propname val =
     (case map_of (properties np) propname of
        None \<Rightarrow> (- EINVAL, val)
      | Some [] \<Rightarrow> (- ENODATA, val)
      | Some (cell # _) \<Rightarrow> (0, sint cell))"

definition of_get_child_by_name :: "device_node \<Rightarrow> string \<Rightarrow> device_node option" where
  "of_get_child_by_name node nm =
     find (\<lambda>child. case node_name child of None \<Rightarrow> False
                                           | Some n \<Rightarrow> of_node_cmp n nm = 0)
          (child_nodes node)"

text \<open>
  The loop \<^verbatim>\<open>for (i = 1; value > 0; i++, value -= 4)\<close> of
  \<^verbatim>\<open>tegra_vi_get_port_info\<close>, which adds one CSI brick per four further lanes.
\<close>

function port_info_bricks :: "tegra_channel \<Rightarrow> nat \<Rightarrow> int \<Rightarrow> tegra_channel \<times> int" where
  "port_info_bricks chan i val =
     (if val > 0
      then let next_port = unat (port chan ! (i - 1)) + 2;
               next_port = next_port mod (5 + 1)
           in port_info_bricks (chan\<lparr>port := (port chan)[i := of_nat next_port]\<rparr>)
                (i + 1) (val - 4)
      else (chan, val))"
  by pat_completeness auto
termination
  by (relation "measure (\<lambda>(chan, i, val). nat val)") auto

text \<open>
  The inner loop over the endpoints of one port node. \<open>Inl\<close> is the early
  \<^verbatim>\<open>return -EINVAL\<close> with the channel as it is at that point; \<open>Inr\<close> carries the
  channel and the locals \<^verbatim>\<open>value\<close> and \<^verbatim>\<open>ret\<close> on to the next iteration.
\<close>

fun port_info_endpoints ::
  "tegra_channel \<Rightarrow> int \<Rightarrow> int \<Rightarrow> device_node list
     \<Rightarrow> (int \<times> tegra_channel) + (tegra_channel \<times> int \<times> int)" where
  "port_info_endpoints chan val ret [] = Inr (chan, val, ret)"
| "port_info_endpoints chan val ret (ep # eps) =
     (if node_name ep = None \<or> of_node_cmp (the (node_name ep)) ''endpoint'' \<noteq> 0
      then port_info_endpoints chan val ret eps
      else
        let (ret, val) = of_property_read_u32 ep ''csi-port'' val;
            chan = chan\<lparr>port := (port chan)[0 := word_of_int val]\<rparr>;
            (ret, val) = of_property_read_u32 ep ''bus-width'' val;
            chan = chan\<lparr>numlanes := word_of_int val\<rparr>
        in if val > 12 then Inl (- EINVAL, chan)
           else let (chan, val) = port_info_bricks chan 1 (val - 4)
                in port_info_endpoints chan val ret eps)"

fun port_info_ports ::
  "tegra_channel \<Rightarrow> u32 \<Rightarrow> int \<Rightarrow> int \<Rightarrow> device_node list \<Rightarrow> int \<times> tegra_channel" where
  "port_info_ports chan index val ret [] = (ret, chan)"
| "port_info_ports chan index val ret (port_node # rest) =
     (if node_name port_node = None \<or> of_node_cmp (the (node_name port_node)) ''port'' \<noteq> 0
      then port_info_ports chan index val ret rest
      else
        let (ret, val) = of_property_read_u32 port_node ''reg'' val
        in if ret < 0 then port_info_ports chan index val ret rest
           else if (word_of_int val :: u32) \<noteq> index
           then port_info_ports chan index val ret rest
           else case port_info_endpoints chan val ret (child_nodes port_node) of
                  Inl r \<Rightarrow> r
                | Inr (chan, val, ret) \<Rightarrow> port_info_ports chan index val ret rest)"

definition tegra_vi_get_port_info :: "tegra_channel \<Rightarrow> device_node \<Rightarrow> u32 \<Rightarrow> int \<times> tegra_channel" where
  "tegra_vi_get_port_info chan node index =
     (let val = 0xFFFF;
          ret = 0;
          ports = (case of_get_child_by_name node ''ports'' of
                     None \<Rightarrow> node | Some ports \<Rightarrow> ports)
      in port_info_ports chan index val ret (child_nodes ports))"

section \<open>Observations on a channel\<close>

text \<open>
  The buffers handed back to videobuf2 and the ports handed to the CSI recovery, as
  they appear in the trace.
\<close>

definition completions :: "call list \<Rightarrow> (nat \<times> vb2_buffer_state) list" where
  "completions t =
     concat (map (\<lambda>e. case e of vb2_buffer_done vb st \<Rightarrow> [(vb, st)] | _ \<Rightarrow> []) t)"

definition recoveries :: "call list \<Rightarrow> u8 list" where
  "recoveries t =
     concat (map (\<lambda>e. case e of tegra_csi_error_recover p \<Rightarrow> [p] | _ \<Rightarrow> []) t)"

text \<open>
  The ring is well formed with at most \<open>n\<close> outstanding buffers: both arrays have
  \<^verbatim>\<open>QUEUED_BUFFERS\<close> entries, the indices are in range, and the save index is
  \<open>num_buffers\<close> slots ahead of the free index.
\<close>

definition ring_wf :: "nat \<Rightarrow> tegra_channel \<Rightarrow> bool" where
  "ring_wf n chan \<longleftrightarrow>
     length (buffers chan) = 4 \<and> length (buffer_state chan) = 4 \<and>
     unat (free_index chan) < 4 \<and> unat (num_buffers chan) \<le> n \<and>
     unat (save_index chan) = (unat (free_index chan) + unat (num_buffers chan)) mod 4"

text \<open>The outstanding slots, oldest first, and what they hold.\<close>

definition ring_slots :: "tegra_channel \<Rightarrow> nat list" where
  "ring_slots chan =
     map (\<lambda>k. (unat (free_index chan) + k) mod 4) [0..<unat (num_buffers chan)]"

definition ring_bufs :: "tegra_channel \<Rightarrow> nat list" where
  "ring_bufs chan = map (\<lambda>i. buffers chan ! i) (ring_slots chan)"

definition ring_states :: "tegra_channel \<Rightarrow> vb2_buffer_state list" where
  "ring_states chan = map (\<lambda>i. buffer_state chan ! i) (ring_slots chan)"

text \<open>
  Groups of fields: \<open>ring_view\<close> is what only the ring operations change,
  \<open>cfg_view\<close> is the configuration, which the capture engine never changes, and
  \<open>thread_view\<close> is the submission queue and the capture thread. The ring
  operations leave \<open>env_view\<close> as it is; the register programming and the calls into
  the CSI and host1x leave \<open>hw_view\<close> as it is.
\<close>

definition ring_view where
  "ring_view chan =
     (buffers chan, buffer_state chan, save_index chan, free_index chan, num_buffers chan,
      released_bufs chan, bfirst_fstart chan, sequence chan, completions (trace chan))"

definition cfg_view where
  "cfg_view chan =
     (port chan, syncpt chan, valid_ports chan, total_ports chan, pg_mode chan, bypass chan,
      format chan, fmtinfo chan)"

definition thread_view where
  "thread_view chan =
     (capture chan, kthread_capture_start chan, kthread_err chan, requested_kbyteps chan,
      requested_hz chan)"

definition env_view where
  "env_view chan =
     (capture_state chan, is_streaming chan, syncpoint_fifo chan, recoveries (trace chan),
      thread_view chan, cfg_view chan)"

definition hw_view where
  "hw_view chan = (ring_view chan, thread_view chan, cfg_view chan)"

text \<open>Every buffer the channel is answerable for, in the order of submission.\<close>

definition accounted :: "tegra_channel \<Rightarrow> nat list" where
  "accounted chan =
     map fst (completions (trace chan)) @ ring_bufs chan @ map buf (capture chan)"

text \<open>
  \<^verbatim>\<open>tegra_channel_capture_frame\<close> up to its call of
  \<^verbatim>\<open>tegra_channel_ring_buffer\<close>: the return value, the buffer state handed to the
  ring and the channel at that point. Both exits of the function end with that
  call.
\<close>

definition capture_frame_hw ::
  "headers \<Rightarrow> hw \<Rightarrow> tegra_channel \<Rightarrow> tegra_channel_buffer
     \<Rightarrow> int \<times> vb2_buffer_state \<times> tegra_channel" where
  "capture_frame_hw rh h chan b =
     (let valid_ports' = valid_ports chan;
          state = VB2_BUF_STATE_DONE;
          chan = fold (capture_frame_program rh b) [0..<valid_ports'] chan;
          (err, chan) = (if \<not> bfirst_fstart chan then tegra_channel_enable_stream h chan
                         else (0, chan))
      in if \<not> bfirst_fstart chan \<and> err \<noteq> 0
         then (err, VB2_BUF_STATE_ERROR, chan\<lparr>capture_state := CAPTURE_ERROR\<rparr>)
         else
           let chan = (if \<not> bfirst_fstart chan
                       then fold (\<lambda>index. emit
                              [csi_write index TEGRA_VI_CSI_IMAGE_DEF
                                 (vi_csi_image_def h index OR IMAGE_DEF_DEST_MEM rh)])
                              [0..<valid_ports'] chan
                       else chan);
               chan = fold (\<lambda>index. emit
                        [csi_write index TEGRA_VI_CSI_SINGLE_SHOT (SINGLE_SHOT_CAPTURE rh)])
                        [0..<valid_ports'] chan;
               chan = chan\<lparr>capture_state := CAPTURE_GOOD\<rparr>;
               (err, state, chan) =
                  syncpt_wait_loop h (tegra_channel_ec_recover rh h) [0..<valid_ports']
                    err state chan;
               (state, chan) =
                  (if err = 0 \<and> \<not> pg_mode chan
                   then let (err', chan) = tegra_channel_error_status h chan
                        in if err' \<noteq> 0
                           then (VB2_BUF_STATE_ERROR, chan\<lparr>capture_state := CAPTURE_ERROR\<rparr>)
                           else (state, chan)
                   else (state, chan))
           in (0, state, chan))"

text \<open>
  The first-frame stream enabling is not needed or succeeds: the frame start has
  been seen before, the test pattern generator is the source, the sub-devices
  stream already, or their \<^verbatim>\<open>s_stream\<close> call returns 0.
\<close>

definition enable_ok :: "hw \<Rightarrow> tegra_channel \<Rightarrow> bool" where
  "enable_ok h chan \<longleftrightarrow>
     bfirst_fstart chan \<or> pg_mode chan \<or> is_streaming chan \<or> s_stream_ret h = 0"

section \<open>A concrete single-port channel\<close>

text \<open>
  A channel on CSI port A with one valid port and the default 1920x1080 format, the
  header constants as the Tegra X1 kernel has them, hardware that answers every
  wait in time with no error bit set, and hardware whose sync point waits time
  out or that reports an uncorrectable parser error.
\<close>

definition example_chan :: tegra_channel where
  "example_chan =
     \<lparr>format = \<lparr>width = 1920, height = 1080, bytesperline = 3840, sizeimage = 4147200\<rparr>,
      fmtinfo = \<lparr>vf_code = 0, fmt_width = 10, bpp = 2, img_fmt = 0, img_dt = 0\<rparr>,
      port = [0, 255, 255, 255, 255, 255], syncpt = [1, 2, 3, 4, 5, 6],
      syncpoint_fifo = [0, 0, 0, 0, 0, 0], buffer_offset = [0, 0, 0, 0, 0, 0],
      buffer_state = [VB2_BUF_STATE_QUEUED, VB2_BUF_STATE_QUEUED, VB2_BUF_STATE_QUEUED,
                      VB2_BUF_STATE_QUEUED],
      buffers = [0, 0, 0, 0],
      timeout = 0, save_index = 0, free_index = 0, num_buffers = 0, released_bufs = 0,
      kthread_capture_start = NoTask, capture = [], valid_ports = 1, total_ports = 1,
      numlanes = 2, sequence = 0, gang_mode = 0, gang_width = 0, gang_height = 0,
      gang_bytesperline = 0, gang_sizeimage = 0, bypass = False, bfirst_fstart = False,
      capture_state = CAPTURE_IDLE, is_streaming = False, requested_kbyteps = 0,
      requested_hz = 0, pg_mode = False, kthread_err = 0, trace = []\<rparr>"

definition example_headers :: headers where
  "example_headers =
     \<lparr>TEGRA_SURFACE_ALIGNMENT = 64, IMAGE_SIZE_HEIGHT_OFFSET = 16,
      IMAGE_DEF_FORMAT_OFFSET = 16, BYPASS_PXL_TRANSFORM_OFFSET = 24,
      IMAGE_DEF_DEST_MEM = 1, SINGLE_SHOT_CAPTURE = 1, SYNCPT_FIFO_DEPTH = 2,
      VI_CSI_PP_FRAME_START = (\<lambda>p. 5 + ucast p * 4),
      VI_CSI_MW_ACK_DONE = (\<lambda>p. 7 + ucast p * 4),
      VI_CFG_VI_INCR_SYNCPT_COND = (\<lambda>x. push_bit 8 (x AND 0xff)),
      TEGRA_VF_YUV422 = 16, TEGRA_VF_RGB888 = 24\<rparr>"

definition example_hw :: hw where
  "example_hw =
     \<lparr>syncpt_wait = (\<lambda>_. 0), syncpt_thresh = (\<lambda>_. 0), vi_csi_error_status = (\<lambda>_. 0),
      vi_csi_image_def = (\<lambda>_. 0), vi_csi_single_shot = (\<lambda>_. 0), vi_incr_syncpt_error = 0,
      csi_port_regs = (\<lambda>_. \<lparr>pixel_parser_status = 0, cil_status = 0, cilx_status = 0\<rparr>),
      s_stream_ret = 0, pipeline_start_ret = 0, kthread_run_ret = 0\<rparr>"

definition example_hw_timeout :: hw where
  "example_hw_timeout = example_hw\<lparr>syncpt_wait := (\<lambda>_. - 11)\<rparr>"

definition example_hw_error :: hw where
  "example_hw_error =
     example_hw\<lparr>csi_port_regs :=
       (\<lambda>_. \<lparr>pixel_parser_status = 0x4000, cil_status = 0, cilx_status = 0\<rparr>)\<rparr>"

definition example_buf :: "nat \<Rightarrow> tegra_channel_buffer" where
  "example_buf i = \<lparr>buf = i, addr = 0x1000 * of_nat i\<rparr>"

text \<open>
  The channel after stream start, with buffers 1 to 5 queued and \<open>n\<close> frames
  captured without error.
\<close>

definition example_run :: "nat \<Rightarrow> tegra_channel" where
  "example_run n =
     (kthread_capture_iteration example_headers example_hw ^^ n)
       (fold (\<lambda>b chan. tegra_channel_buffer_queue chan b) (map example_buf [1..<6])
          (snd (tegra_channel_start_streaming example_headers example_hw example_chan)))"

section \<open>The driver as a transition system\<close>

text \<open>
  The entry points through which the ring and the submission queue change: a
  buffer is queued, the capture thread (when there is one) makes one pass of its
  loop, the stream is stopped, the stream is started. Each pass and each call has
  its own hardware answers.
\<close>

datatype action =
    Queue tegra_channel_buffer
  | Capture hw
  | Stop hw
  | Start hw

fun driver_step :: "headers \<Rightarrow> action \<Rightarrow> tegra_channel \<Rightarrow> tegra_channel" where
  "driver_step rh (Queue b) chan = tegra_channel_buffer_queue chan b"
| "driver_step rh (Capture h) chan =
     (if kthread_capture_start chan = Task then kthread_capture_iteration rh h chan else chan)"
| "driver_step rh (Stop h) chan = snd (tegra_channel_stop_streaming rh h chan)"
| "driver_step rh (Start h) chan = snd (tegra_channel_start_streaming rh h chan)"

definition driver_run :: "headers \<Rightarrow> action list \<Rightarrow> tegra_channel \<Rightarrow> tegra_channel" where
  "driver_run rh acts chan = fold (driver_step rh) acts chan"

fun capture_action :: "action \<Rightarrow> bool" where
  "capture_action (Queue b) = True"
| "capture_action (Capture h) = True"
| "capture_action (Stop h) = False"
| "capture_action (Start h) = False"

fun queued_buffer :: "action \<Rightarrow> nat list" where
  "queued_buffer (Queue b) = [buf b]"
| "queued_buffer (Capture h) = []"
| "queued_buffer (Stop h) = []"
| "queued_buffer (Start h) = []"

definition first_two_error :: "(nat \<times> vb2_buffer_state) list \<Rightarrow> bool" where
  "first_two_error xs = list_all (\<lambda>x. snd x = VB2_BUF_STATE_ERROR) (take 2 xs)"

text \<open>
  The two halves of \<^verbatim>\<open>tegra_channel_stop_streaming\<close> on a channel that is not in
  bypass mode: the drain of the ring and of the submission queue, and the shutdown
  of the hardware that follows.
\<close>

definition stop_streaming_drain :: "headers \<Rightarrow> hw \<Rightarrow> tegra_channel \<Rightarrow> tegra_channel" where
  "stop_streaming_drain rh h chan =
     (let is_streaming' = is_streaming chan;
          chan = tegra_channel_stop_kthreads chan;
          chan = (if is_streaming' \<and> capture_state chan = CAPTURE_GOOD
                  then tegra_channel_capture_done rh h chan else chan);
          chan = free_ring_buffers chan (unat (num_buffers chan))
      in tegra_channel_queued_buf_done chan VB2_BUF_STATE_ERROR)"

definition stop_streaming_shutdown :: "hw \<Rightarrow> tegra_channel \<Rightarrow> tegra_channel" where
  "stop_streaming_shutdown h chan =
     (let chan = emit [tegra_channel_write TEGRA_VI_CFG_CG_CTRL 0] chan;
          chan = fold (\<lambda>index chan.
                   let chan = emit [tegra_csi_stop_streaming (port chan ! index)] chan
                   in if vi_csi_single_shot h index \<noteq> 0
                      then tegra_channel_clear_singleshot chan index else chan)
                   [0..<valid_ports chan] chan;
          chan = emit [tegra_channel_write TEGRA_VI_CFG_CG_CTRL 1,
                       tegra_csi_pad_control (port chan) False] chan;
          chan = (if \<not> pg_mode chan
                  then emit [media_entity_pipeline_stop]
                         (snd (tegra_channel_set_stream h chan False))
                  else chan);
          chan = tegra_channel_update_clknbw chan 0
      in emit [tegra_mipi_bias_pad_disable] chan)"

section \<open>Index arithmetic and closed forms of the ring operations\<close>

lemma unat_lt4_cases: "unat (w::u32) < 4 \<Longrightarrow> w = 0 \<or> w = 1 \<or> w = 2 \<or> w = 3"
proof -
  assume a: "unat w < 4"
  then consider "unat w = 0" | "unat w = 1" | "unat w = 2" | "unat w = 3" by linarith
  then show ?thesis by cases (simp_all add: word_unat_eq_iff)
qed

lemma index_incr_wrap:
  "unat (w::u32) < 4 \<Longrightarrow> unat (if w + 1 \<ge> 4 then 0 else w + 1) = (unat w + 1) mod 4"
  by (drule unat_lt4_cases) (elim disjE; simp add: word_le_nat_alt)

lemma count_incr: "unat (n::u32) \<le> 3 \<Longrightarrow> unat (n + 1) = unat n + 1"
proof -
  assume "unat n \<le> 3"
  then have "unat n < 4" by simp
  then show ?thesis by (drule_tac unat_lt4_cases) (elim disjE; simp)
qed

lemma count_decr: "0 < unat (n::u32) \<Longrightarrow> unat (n - 1) = unat n - 1"
  by (metis unat_minus_one unat_0 less_numeral_extra(3))

lemma previous_slot:
  "unat (w::u32) < 4 \<Longrightarrow>
   unat (if w - 2 <s 0 then w - 2 + 4 else w - 2) = (unat w + 2) mod 4"
  by (drule unat_lt4_cases) (elim disjE; simp add: word_sless_alt)

lemma completions_simps [simp]:
  "completions [] = []"
  "completions (xs @ ys) = completions xs @ completions ys"
  "completions (e # xs) =
     (case e of vb2_buffer_done vb st \<Rightarrow> [(vb, st)] | _ \<Rightarrow> []) @ completions xs"
  by (simp_all add: completions_def)

lemma recoveries_simps [simp]:
  "recoveries [] = []"
  "recoveries (xs @ ys) = recoveries xs @ recoveries ys"
  "recoveries (e # xs) =
     (case e of tegra_csi_error_recover p \<Rightarrow> [p] | _ \<Rightarrow> []) @ recoveries xs"
  by (simp_all add: recoveries_def)

lemma add_buffer_to_ring_eq:
  "add_buffer_to_ring c vb =
     c\<lparr>buffer_state := (buffer_state c)[unat (save_index c) := VB2_BUF_STATE_ERROR],
       buffers := (buffers c)[unat (save_index c) := vb],
       save_index := (if save_index c + 1 \<ge> 4 then 0 else save_index c + 1),
       num_buffers := num_buffers c + 1\<rparr>"
  by (simp add: add_buffer_to_ring_def Let_def QUEUED_BUFFERS_def)

lemma free_ring_buffers_body_eq:
  "free_ring_buffers_body c =
     c\<lparr>sequence := sequence c + 1,
       buffer_state := (if capture_state c \<noteq> CAPTURE_GOOD \<or> released_bufs c < 2
                        then (buffer_state c)[unat (free_index c) := VB2_BUF_STATE_ERROR]
                        else buffer_state c),
       trace := trace c @ [vb2_buffer_done (buffers c ! unat (free_index c))
                  ((if capture_state c \<noteq> CAPTURE_GOOD \<or> released_bufs c < 2
                        then (buffer_state c)[unat (free_index c) := VB2_BUF_STATE_ERROR]
                        else buffer_state c) ! unat (free_index c))],
       free_index := (if free_index c + 1 \<ge> 4 then 0 else free_index c + 1),
       num_buffers := num_buffers c - 1,
       released_bufs := released_bufs c + 1\<rparr>"
  by (simp add: free_ring_buffers_body_def Let_def QUEUED_BUFFERS_def emit_def)

lemma update_state_to_buffer_eq:
  "update_state_to_buffer c st =
     c\<lparr>buffer_state :=
         (if capture_state c \<noteq> CAPTURE_GOOD
          then ((buffer_state c)[unat (if save_index c - 2 <s 0 then save_index c - 2 + 4 else save_index c - 2) := st])
                  [unat (save_index c) := st]
          else (buffer_state c)[unat (if save_index c - 2 <s 0 then save_index c - 2 + 4 else save_index c - 2) := st])\<rparr>"
  by (simp add: update_state_to_buffer_def Let_def QUEUED_BUFFERS_def PREVIOUS_BUFFER_DEC_INDEX_def)

section \<open>The ring as a queue\<close>

lemma slot_shift:
  assumes "r < 4" "0 < d" "d < 4"
  shows "(r + d) mod 4 \<noteq> (r::nat)"
proof -
  from assms have "r = 0 \<or> r = 1 \<or> r = 2 \<or> r = 3" by linarith
  moreover from assms have "d = 1 \<or> d = 2 \<or> d = 3" by linarith
  ultimately show ?thesis by (elim disjE; simp)
qed

lemma slot_distinct:
  assumes "k < n" "n < 4"
  shows "(f + k) mod 4 \<noteq> (f + n) mod (4::nat)"
proof -
  define d where "d = n - k"
  have d: "n = k + d" "0 < d" "d < 4" using assms by (simp_all add: d_def)
  have "(f + n) mod 4 = ((f + k) mod 4 + d) mod 4"
    by (simp add: d(1) mod_add_left_eq add.assoc)
  moreover have "((f + k) mod 4 + d) mod 4 \<noteq> (f + k) mod 4"
    using d by (intro slot_shift) simp_all
  ultimately show ?thesis by simp
qed

lemma ring_slots_Cons:
  "0 < n \<Longrightarrow> map (\<lambda>k. (f + k) mod 4) [0..<n] =
     f mod 4 # map (\<lambda>k. ((f + 1) mod 4 + k) mod (4::nat)) [0..<n - 1]"
proof -
  assume "0 < n"
  then obtain m where n: "n = Suc m" by (cases n) auto
  have "[0..<Suc m] = 0 # map Suc [0..<m]"
    by (metis map_Suc_upt upt_conv_Cons zero_less_Suc)
  then have "map (\<lambda>k. (f + k) mod 4) [0..<Suc m] = f mod 4 # map (\<lambda>k. (f + Suc k) mod 4) [0..<m]"
    by (simp add: comp_def del: upt_Suc)
  also have "map (\<lambda>k. (f + Suc k) mod 4) [0..<m] = map (\<lambda>k. ((f + 1) mod 4 + k) mod 4) [0..<m]"
    by (simp add: mod_add_left_eq)
  finally show ?thesis using n by simp
qed

lemma ring_wf_mono: "ring_wf m c \<Longrightarrow> m \<le> n \<Longrightarrow> ring_wf n c"
  by (simp add: ring_wf_def)

lemma add_buffer_to_ring_wf:
  assumes "ring_wf 2 c"
  shows "ring_wf 3 (add_buffer_to_ring c vb)"
proof -
  from assms have s: "unat (save_index c) < 4" and n: "unat (num_buffers c) \<le> 3"
    by (simp_all add: ring_wf_def)
  show ?thesis using assms
    by (simp add: ring_wf_def add_buffer_to_ring_eq index_incr_wrap [OF s] count_incr [OF n]
        mod_simps add.assoc del: One_nat_def) 
qed

lemma add_buffer_to_ring_slots:
  assumes "ring_wf 2 c"
  shows "ring_slots (add_buffer_to_ring c vb) = ring_slots c @ [unat (save_index c)]"
proof -
  from assms have n: "unat (num_buffers c) \<le> 3" by (simp add: ring_wf_def)
  from assms have sv: "unat (save_index c) = (unat (free_index c) + unat (num_buffers c)) mod 4"
    by (simp add: ring_wf_def)
  show ?thesis
    by (simp add: ring_slots_def add_buffer_to_ring_eq count_incr [OF n] sv)
qed

lemma save_slot_free:
  assumes "ring_wf 3 c" and "i \<in> set (ring_slots c)"
  shows "unat (save_index c) \<noteq> i"
proof -
  from assms have n: "unat (num_buffers c) < 4" by (simp add: ring_wf_def)
  from assms have sv: "unat (save_index c) = (unat (free_index c) + unat (num_buffers c)) mod 4"
    by (simp add: ring_wf_def)
  from assms(2) obtain k where k: "k < unat (num_buffers c)" "i = (unat (free_index c) + k) mod 4"
    by (auto simp: ring_slots_def)
  show ?thesis using slot_distinct [OF k(1) n, of "unat (free_index c)"] k(2) sv by simp
qed

lemma add_buffer_to_ring_bufs:
  assumes "ring_wf 2 c"
  shows "ring_bufs (add_buffer_to_ring c vb) = ring_bufs c @ [vb]"
    and "ring_states (add_buffer_to_ring c vb) = ring_states c @ [VB2_BUF_STATE_ERROR]"
proof -
  have w3: "ring_wf 3 c" using assms by (rule ring_wf_mono) simp
  have s: "unat (save_index c) < 4" using assms by (simp add: ring_wf_def)
  have l: "length (buffers c) = 4" "length (buffer_state c) = 4" using assms by (simp_all add: ring_wf_def)
  note notin = save_slot_free [OF w3]
  have b: "buffers (add_buffer_to_ring c vb) = (buffers c)[unat (save_index c) := vb]"
    and st: "buffer_state (add_buffer_to_ring c vb) = (buffer_state c)[unat (save_index c) := VB2_BUF_STATE_ERROR]"
    by (simp_all add: add_buffer_to_ring_eq)
  show "ring_bufs (add_buffer_to_ring c vb) = ring_bufs c @ [vb]"
    using s l notin
    by (simp add: ring_bufs_def add_buffer_to_ring_slots [OF assms] b)
  show "ring_states (add_buffer_to_ring c vb) = ring_states c @ [VB2_BUF_STATE_ERROR]"
    using s l notin
    by (simp add: ring_states_def add_buffer_to_ring_slots [OF assms] st)
qed

lemma free_ring_buffers_body_wf:
  assumes "ring_wf n c" "0 < unat (num_buffers c)"
  shows "ring_wf (n - 1) (free_ring_buffers_body c)"
proof -
  from assms have f: "unat (free_index c) < 4" by (simp add: ring_wf_def)
  have len: "length (if capture_state c \<noteq> CAPTURE_GOOD \<or> released_bufs c < 2
                        then (buffer_state c)[unat (free_index c) := VB2_BUF_STATE_ERROR]
                        else buffer_state c) = length (buffer_state c)" by simp
  obtain m where m: "unat (num_buffers c) = Suc m" using assms(2) by (cases "unat (num_buffers c)") auto
  have "(unat (free_index c) + unat (num_buffers c)) mod 4 =
        ((unat (free_index c) + 1) mod 4 + (unat (num_buffers c) - 1)) mod 4"
    by (simp add: m mod_add_left_eq)
  moreover have "unat (num_buffers c) - 1 \<le> n - 1"
    using assms(1) by (simp add: ring_wf_def diff_le_mono)
  ultimately show ?thesis using assms
    by (simp add: ring_wf_def free_ring_buffers_body_eq index_incr_wrap [OF f]
        count_decr [OF assms(2)] len del: One_nat_def)
qed

lemma free_ring_buffers_body_slots:
  assumes "ring_wf n c" "0 < unat (num_buffers c)"
  shows "ring_slots c = unat (free_index c) # ring_slots (free_ring_buffers_body c)"
proof -
  from assms have f: "unat (free_index c) < 4" by (simp add: ring_wf_def)
  show ?thesis
    using ring_slots_Cons [OF assms(2), of "unat (free_index c)"] f
    by (simp add: ring_slots_def free_ring_buffers_body_eq index_incr_wrap [OF f]
        count_decr [OF assms(2)] del: One_nat_def)
qed

lemma free_slot_released:
  assumes "ring_wf 4 c" "0 < unat (num_buffers c)" "i \<in> set (ring_slots (free_ring_buffers_body c))"
  shows "unat (free_index c) \<noteq> i"
proof -
  from assms have f: "unat (free_index c) < 4" and n: "unat (num_buffers c) \<le> 4"
    by (simp_all add: ring_wf_def)
  from assms(3) obtain k where k: "k < unat (num_buffers c) - 1"
      "i = ((unat (free_index c) + 1) mod 4 + k) mod 4"
    by (auto simp: ring_slots_def free_ring_buffers_body_eq index_incr_wrap [OF f]
        count_decr [OF assms(2)] simp del: One_nat_def)
  have "i = (unat (free_index c) + (k + 1)) mod 4" using k(2) by (simp add: mod_add_left_eq add.assoc)
  moreover have "(unat (free_index c) + (k + 1)) mod 4 \<noteq> unat (free_index c)"
    using f k(1) n by (intro slot_shift) simp_all
  ultimately show ?thesis by simp
qed

lemma free_ring_buffers_body_bufs:
  assumes "ring_wf 4 c" "0 < unat (num_buffers c)"
  shows "ring_bufs c = buffers c ! unat (free_index c) # ring_bufs (free_ring_buffers_body c)"
    and "ring_states (free_ring_buffers_body c) = tl (ring_states c)"
proof -
  have b: "buffers (free_ring_buffers_body c) = buffers c"
    by (simp add: free_ring_buffers_body_eq)
  show "ring_bufs c = buffers c ! unat (free_index c) # ring_bufs (free_ring_buffers_body c)"
    by (simp add: ring_bufs_def free_ring_buffers_body_slots [OF assms] b)
  have st: "buffer_state (free_ring_buffers_body c) =
      (if capture_state c \<noteq> CAPTURE_GOOD \<or> released_bufs c < 2
       then (buffer_state c)[unat (free_index c) := VB2_BUF_STATE_ERROR]
       else buffer_state c)"
    by (simp add: free_ring_buffers_body_eq)
  note ne = free_slot_released [OF assms]
  show "ring_states (free_ring_buffers_body c) = tl (ring_states c)"
    using ne by (simp add: ring_states_def free_ring_buffers_body_slots [OF assms] st)
qed

lemma free_ring_buffers_body_trace:
  assumes "ring_wf n c"
  shows "trace (free_ring_buffers_body c) =
     trace c @ [vb2_buffer_done (buffers c ! unat (free_index c))
        (if capture_state c \<noteq> CAPTURE_GOOD \<or> released_bufs c < 2 then VB2_BUF_STATE_ERROR
         else buffer_state c ! unat (free_index c))]"
  using assms by (simp add: free_ring_buffers_body_eq ring_wf_def)

lemma free_ring_buffers_body_env:
  "env_view (free_ring_buffers_body c) = env_view c"
  "bfirst_fstart (free_ring_buffers_body c) = bfirst_fstart c"
  "released_bufs (free_ring_buffers_body c) = released_bufs c + 1"
  "num_buffers (free_ring_buffers_body c) = num_buffers c - 1"
  "capture_state (free_ring_buffers_body c) = capture_state c"
  "capture (free_ring_buffers_body c) = capture c"
  by (simp_all add: free_ring_buffers_body_eq env_view_def cfg_view_def thread_view_def)

lemma free_ring_buffers_env:
  "env_view (free_ring_buffers c n) = env_view c \<and>
   bfirst_fstart (free_ring_buffers c n) = bfirst_fstart c \<and>
   capture_state (free_ring_buffers c n) = capture_state c \<and>
   capture (free_ring_buffers c n) = capture c \<and>
   released_bufs (free_ring_buffers c n) = released_bufs c + of_nat n \<and>
   num_buffers (free_ring_buffers c n) = num_buffers c - of_nat n"
  by (induction n arbitrary: c) (simp_all add: free_ring_buffers_body_env)

lemma free_ring_buffers_flush:
  assumes "ring_wf 4 c" "unat (num_buffers c) = n" "capture_state c \<noteq> CAPTURE_GOOD"
  shows "completions (trace (free_ring_buffers c n)) =
           completions (trace c) @ map (\<lambda>v. (v, VB2_BUF_STATE_ERROR)) (ring_bufs c)
         \<and> ring_wf 0 (free_ring_buffers c n)"
  using assms
proof (induction n arbitrary: c)
  case 0
  then show ?case by (simp add: ring_bufs_def ring_slots_def ring_wf_def)
next
  case (Suc n)
  have pos: "0 < unat (num_buffers c)" using Suc.prems(2) by simp
  have wf: "ring_wf 4 (free_ring_buffers_body c)"
    using free_ring_buffers_body_wf [OF Suc.prems(1) pos] by (rule ring_wf_mono) simp
  have num: "unat (num_buffers (free_ring_buffers_body c)) = n"
    using Suc.prems(2) by (simp add: free_ring_buffers_body_env count_decr [OF pos])
  have cs: "capture_state (free_ring_buffers_body c) \<noteq> CAPTURE_GOOD"
    using Suc.prems(3) by (simp add: free_ring_buffers_body_env)
  from Suc.IH [OF wf num cs] show ?case
    using Suc.prems(3)
    by (simp add: free_ring_buffers_body_trace [OF Suc.prems(1)]
        free_ring_buffers_body_bufs(1) [OF Suc.prems(1) pos])
qed

section \<open>What the register programming leaves alone\<close>

lemmas views = ring_view_def cfg_view_def thread_view_def env_view_def hw_view_def

lemma fold_field:
  "(\<And>i c. sel (f i c) = sel c) \<Longrightarrow> sel (fold f xs c) = sel c"
  by (induction xs arbitrary: c) simp_all

lemmas fold_hw_view = fold_field [where sel = hw_view]
lemmas fold_capture_state = fold_field [where sel = capture_state]
lemmas fold_is_streaming = fold_field [where sel = is_streaming]
lemmas fold_pg_mode = fold_field [where sel = pg_mode]
lemmas fold_bfirst_fstart = fold_field [where sel = bfirst_fstart]
lemmas fold_recoveries = fold_field [where sel = "\<lambda>c. recoveries (trace c)"]
lemmas fold_views = fold_hw_view fold_capture_state fold_is_streaming fold_pg_mode
  fold_bfirst_fstart fold_recoveries

lemma hw_view_updates [simp]:
  "hw_view (c\<lparr>is_streaming := s\<rparr>) = hw_view c"
  "hw_view (c\<lparr>capture_state := cs\<rparr>) = hw_view c"
  "hw_view (c\<lparr>syncpoint_fifo := sf\<rparr>) = hw_view c"
  "hw_view (c\<lparr>timeout := t\<rparr>) = hw_view c"
  by (simp_all add: views)

lemma hw_view_fields:
  assumes "hw_view c' = hw_view c"
  shows "ring_view c' = ring_view c" "cfg_view c' = cfg_view c" "thread_view c' = thread_view c"
    "port c' = port c" "syncpt c' = syncpt c" "valid_ports c' = valid_ports c"
    "pg_mode c' = pg_mode c" "bypass c' = bypass c" "bfirst_fstart c' = bfirst_fstart c"
    "capture c' = capture c" "kthread_err c' = kthread_err c"
    "kthread_capture_start c' = kthread_capture_start c"
    "num_buffers c' = num_buffers c" "save_index c' = save_index c" "free_index c' = free_index c"
    "buffers c' = buffers c" "buffer_state c' = buffer_state c" "released_bufs c' = released_bufs c"
    "completions (trace c') = completions (trace c)" "format c' = format c"
    "requested_kbyteps c' = requested_kbyteps c" "requested_hz c' = requested_hz c"
    "sequence c' = sequence c"
  using assms by (simp_all add: views)

lemma emit_views [simp]:
  "completions es = [] \<Longrightarrow> hw_view (emit es c) = hw_view c"
  "capture_state (emit es c) = capture_state c"
  "is_streaming (emit es c) = is_streaming c"
  "recoveries (trace (emit es c)) = recoveries (trace c) @ recoveries es"
  "port (emit es c) = port c"
  "syncpt (emit es c) = syncpt c"
  "valid_ports (emit es c) = valid_ports c"
  "pg_mode (emit es c) = pg_mode c"
  "bfirst_fstart (emit es c) = bfirst_fstart c"
  "syncpoint_fifo (emit es c) = syncpoint_fifo c"
  by (simp_all add: emit_def views)

lemma capture_frame_program_views [simp]:
  "hw_view (capture_frame_program rh b i c) = hw_view c"
  "capture_state (capture_frame_program rh b i c) = capture_state c"
  "is_streaming (capture_frame_program rh b i c) = is_streaming c"
  "recoveries (trace (capture_frame_program rh b i c)) = recoveries (trace c)"
  "pg_mode (capture_frame_program rh b i c) = pg_mode c"
  "bfirst_fstart (capture_frame_program rh b i c) = bfirst_fstart c"
  by (simp_all add: capture_frame_program_def Let_def)

lemma capture_done_program_views [simp]:
  "hw_view (capture_done_program rh b i c) = hw_view c"
  "capture_state (capture_done_program rh b i c) = capture_state c"
  "is_streaming (capture_done_program rh b i c) = is_streaming c"
  "recoveries (trace (capture_done_program rh b i c)) = recoveries (trace c)"
  by (simp_all add: capture_done_program_def Let_def)

lemma tegra_channel_set_stream_views [simp]:
  "hw_view (snd (tegra_channel_set_stream h c on)) = hw_view c"
  "capture_state (snd (tegra_channel_set_stream h c on)) = capture_state c"
  "recoveries (trace (snd (tegra_channel_set_stream h c on))) = recoveries (trace c)"
  "pg_mode (snd (tegra_channel_set_stream h c on)) = pg_mode c"
  by (simp_all add: tegra_channel_set_stream_def Let_def)

lemma tegra_channel_set_stream_ret:
  "fst (tegra_channel_set_stream h c on) = (if is_streaming c = on then 0 else s_stream_ret h)"
  "fst (tegra_channel_set_stream h c on) = 0 \<Longrightarrow> is_streaming (snd (tegra_channel_set_stream h c on)) = on"
  by (simp_all add: tegra_channel_set_stream_def Let_def split: if_splits)

lemma tegra_channel_enable_stream_views [simp]:
  "hw_view (snd (tegra_channel_enable_stream h c)) = hw_view c"
  "capture_state (snd (tegra_channel_enable_stream h c)) = capture_state c"
  "recoveries (trace (snd (tegra_channel_enable_stream h c))) = recoveries (trace c)"
  by (simp_all add: tegra_channel_enable_stream_def Let_def split_beta fold_views)

lemma tegra_channel_enable_stream_ret:
  "fst (tegra_channel_enable_stream h c) =
     (if pg_mode c \<or> is_streaming c then 0 else s_stream_ret h)"
  by (simp add: tegra_channel_enable_stream_def Let_def split_beta fold_views
      tegra_channel_set_stream_ret)

lemma error_status_port_views:
  "hw_view (snd (error_status_port h i (e, c))) = hw_view c"
  "capture_state (snd (error_status_port h i (e, c))) = capture_state c"
  "is_streaming (snd (error_status_port h i (e, c))) = is_streaming c"
  "recoveries (trace (snd (error_status_port h i (e, c)))) = recoveries (trace c)"
  "port (snd (error_status_port h i (e, c))) = port c"
  "fst (error_status_port h i (e, c)) =
     e OR vi_csi_error_status h i OR fst (tegra_csi_error (csi_port_regs h (port c ! i)))"
  by (simp_all add: error_status_port_def Let_def split_beta tegra_csi_error_def
      or.assoc)

lemma error_status_fold_views:
  "hw_view (snd (fold (error_status_port h) xs (e, c))) = hw_view c \<and>
   capture_state (snd (fold (error_status_port h) xs (e, c))) = capture_state c \<and>
   is_streaming (snd (fold (error_status_port h) xs (e, c))) = is_streaming c \<and>
   recoveries (trace (snd (fold (error_status_port h) xs (e, c)))) = recoveries (trace c)"
proof (induction xs arbitrary: e c)
  case Nil
  show ?case by simp
next
  case (Cons x xs)
  obtain e' c' where s: "error_status_port h x (e, c) = (e', c')" by (cases "error_status_port h x (e, c)")
  have "hw_view c' = hw_view c" "capture_state c' = capture_state c"
    "is_streaming c' = is_streaming c" "recoveries (trace c') = recoveries (trace c)"
    using error_status_port_views(1-4) [of h x e c] by (simp_all add: s)
  then show ?case using Cons.IH [of e' c'] s by simp
qed

lemma error_status_fold_ret:
  "port c' = port c \<Longrightarrow>
   fst (fold (error_status_port h) xs (e, c')) = fst (fold (error_status_port h) xs (e, c))"
proof (induction xs arbitrary: e c c')
  case Nil
  show ?case by simp
next
  case (Cons x xs)
  obtain e1 c1 where s1: "error_status_port h x (e, c) = (e1, c1)" by (cases "error_status_port h x (e, c)")
  obtain e2 c2 where s2: "error_status_port h x (e, c') = (e2, c2)" by (cases "error_status_port h x (e, c')")
  have "e2 = e1" "port c2 = port c1"
    using error_status_port_views(5,6) [of h x e c] error_status_port_views(5,6) [of h x e c']
      Cons.prems by (simp_all add: s1 s2)
  then show ?case using Cons.IH [of c2 c1 e1] s1 s2 by simp
qed

lemma tegra_channel_error_status_views [simp]:
  "hw_view (snd (tegra_channel_error_status h c)) = hw_view c"
  "capture_state (snd (tegra_channel_error_status h c)) = capture_state c"
  "is_streaming (snd (tegra_channel_error_status h c)) = is_streaming c"
  "recoveries (trace (snd (tegra_channel_error_status h c))) = recoveries (trace c)"
  by (simp_all add: tegra_channel_error_status_def error_status_fold_views)

lemma tegra_channel_error_status_ret:
  assumes "hw_view c' = hw_view c"
  shows "fst (tegra_channel_error_status h c') = fst (tegra_channel_error_status h c)"
  using error_status_fold_ret [OF hw_view_fields(4) [OF assms]] hw_view_fields(6) [OF assms]
  by (simp add: tegra_channel_error_status_def)

lemma tegra_channel_capture_error_views [simp]:
  "hw_view (tegra_channel_capture_error c) = hw_view c"
  "capture_state (tegra_channel_capture_error c) = capture_state c"
  "is_streaming (tegra_channel_capture_error c) = is_streaming c"
  "recoveries (trace (tegra_channel_capture_error c)) = recoveries (trace c)"
  by (simp_all add: tegra_channel_capture_error_def fold_views)

lemma tegra_channel_clear_singleshot_views [simp]:
  "hw_view (tegra_channel_clear_singleshot c i) = hw_view c"
  "capture_state (tegra_channel_clear_singleshot c i) = capture_state c"
  "is_streaming (tegra_channel_clear_singleshot c i) = is_streaming c"
  "recoveries (trace (tegra_channel_clear_singleshot c i)) = recoveries (trace c)"
  by (simp_all add: tegra_channel_clear_singleshot_def)

lemma tegra_channel_capture_setup_views [simp]:
  "hw_view (snd (tegra_channel_capture_setup rh c)) = hw_view c"
  "capture_state (snd (tegra_channel_capture_setup rh c)) = capture_state c"
  "is_streaming (snd (tegra_channel_capture_setup rh c)) = is_streaming c"
  "recoveries (trace (snd (tegra_channel_capture_setup rh c))) = recoveries (trace c)"
  "fst (tegra_channel_capture_setup rh c) = 0"
  by (simp_all add: tegra_channel_capture_setup_def Let_def split_beta fold_views)

lemma recover_fold_recoveries:
  "recoveries (trace (fold (\<lambda>index chan.
       tegra_channel_clear_singleshot
         (emit [tegra_csi_error_recover (port chan ! index),
                csi_write index TEGRA_VI_CSI_IMAGE_DEF 0] chan) index) xs c)) =
   recoveries (trace c) @ map (\<lambda>i. port c ! i) xs"
proof (induction xs arbitrary: c)
  case Nil
  show ?case by simp
next
  case (Cons x xs)
  let ?c' = "tegra_channel_clear_singleshot
         (emit [tegra_csi_error_recover (port c ! x), csi_write x TEGRA_VI_CSI_IMAGE_DEF 0] c) x"
  have "hw_view ?c' = hw_view c" by simp
  then have p: "port ?c' = port c" by (rule hw_view_fields)
  show ?case by (simp add: Cons.IH p)
qed

lemma tegra_channel_vi_csi_recover_views [simp]:
  "hw_view (tegra_channel_vi_csi_recover rh h c) = hw_view c"
  "capture_state (tegra_channel_vi_csi_recover rh h c) = capture_state c"
  "is_streaming (tegra_channel_vi_csi_recover rh h c) = is_streaming c"
  by (simp_all add: tegra_channel_vi_csi_recover_def Let_def fold_views)

lemma tegra_channel_vi_csi_recover_recoveries:
  "recoveries (trace (tegra_channel_vi_csi_recover rh h c)) =
     recoveries (trace c) @ map (\<lambda>i. port c ! i) [0..<valid_ports c]"
  by (simp add: tegra_channel_vi_csi_recover_def Let_def fold_views recover_fold_recoveries)

lemma tegra_channel_ec_recover_views [simp]:
  "hw_view (tegra_channel_ec_recover rh h c) = hw_view c"
  "capture_state (tegra_channel_ec_recover rh h c) = capture_state c"
  "is_streaming (tegra_channel_ec_recover rh h c) = is_streaming c"
  by (simp_all add: tegra_channel_ec_recover_def)

lemma tegra_channel_ec_recover_recoveries:
  "recoveries (trace (tegra_channel_ec_recover rh h c)) =
     recoveries (trace c) @ map (\<lambda>i. port c ! i) [0..<valid_ports c]"
proof -
  have "hw_view (tegra_channel_capture_error c) = hw_view c" by simp
  then have "port (tegra_channel_capture_error c) = port c"
      "valid_ports (tegra_channel_capture_error c) = valid_ports c"
    by (rule hw_view_fields)+
  then show ?thesis
    by (simp add: tegra_channel_ec_recover_def tegra_channel_vi_csi_recover_recoveries)
qed

section \<open>Frame capture, case by case\<close>

lemma tegra_channel_capture_frame_eq:
  "tegra_channel_capture_frame rh h c b =
     (fst (capture_frame_hw rh h c b),
      tegra_channel_ring_buffer (snd (snd (capture_frame_hw rh h c b)))
        (fst (snd (capture_frame_hw rh h c b))))"
  unfolding tegra_channel_capture_frame_def capture_frame_hw_def Let_def split_beta
  by (simp split: if_splits)

lemma syncpt_wait_loop_views [simp]:
  "hw_view (snd (snd (syncpt_wait_loop h (tegra_channel_ec_recover rh h) xs e st c))) = hw_view c"
  "is_streaming (snd (snd (syncpt_wait_loop h (tegra_channel_ec_recover rh h) xs e st c))) = is_streaming c"
  by (induction xs arbitrary: c e st) (simp_all add: Let_def)

lemma syncpt_wait_loop_ok:
  "\<forall>i\<in>set xs. syncpt_wait h i = 0 \<Longrightarrow>
   fst (syncpt_wait_loop h r xs 0 st c) = 0 \<and>
   fst (snd (syncpt_wait_loop h r xs 0 st c)) = st \<and>
   capture_state (snd (snd (syncpt_wait_loop h r xs 0 st c))) = capture_state c \<and>
   recoveries (trace (snd (snd (syncpt_wait_loop h r xs 0 st c)))) = recoveries (trace c)"
  by (induction xs arbitrary: c) (simp_all add: Let_def)

lemma syncpt_wait_loop_timeout:
  "\<exists>i\<in>set xs. syncpt_wait h i \<noteq> 0 \<Longrightarrow>
   fst (syncpt_wait_loop h (tegra_channel_ec_recover rh h) xs e st c) \<noteq> 0 \<and>
   fst (snd (syncpt_wait_loop h (tegra_channel_ec_recover rh h) xs e st c)) = VB2_BUF_STATE_ERROR \<and>
   capture_state (snd (snd (syncpt_wait_loop h (tegra_channel_ec_recover rh h) xs e st c)))
     = CAPTURE_TIMEOUT \<and>
   recoveries (trace (snd (snd (syncpt_wait_loop h (tegra_channel_ec_recover rh h) xs e st c))))
     = recoveries (trace c) @ map (\<lambda>i. port c ! i) [0..<valid_ports c]"
proof (induction xs arbitrary: c e)
  case Nil
  then show ?case by simp
next
  case (Cons x xs)
  let ?c' = "emit [nvhost_syncpt_wait_timeout_ext (syncpt c ! x) (syncpt_thresh h x)] c"
  show ?case
  proof (cases "syncpt_wait h x = 0")
    case True
    with Cons.prems have "\<exists>i\<in>set xs. syncpt_wait h i \<noteq> 0" by auto
    from Cons.IH [OF this, of 0 ?c'] True show ?thesis by (simp add: Let_def)
  next
    case False
    then show ?thesis by (simp add: Let_def tegra_channel_ec_recover_recoveries)
  qed
qed

lemmas fold_port = fold_field [where sel = port]
lemmas fold_valid_ports = fold_field [where sel = valid_ports]
lemmas fold_fields = fold_views fold_port fold_valid_ports
lemmas capture_frame_program_fields [simp] =
  hw_view_fields(4,6) [OF capture_frame_program_views(1)]
lemmas enable_stream_fields [simp] =
  hw_view_fields(4,6,7,9) [OF tegra_channel_enable_stream_views(1)]
lemmas wait_loop_fields [simp] =
  hw_view_fields(7,9) [OF syncpt_wait_loop_views(1)]
lemmas error_status_fields [simp] =
  hw_view_fields(7,9) [OF tegra_channel_error_status_views(1)]

lemma capture_frame_hw_view [simp]:
  "hw_view (snd (snd (capture_frame_hw rh h c b))) = hw_view c"
  by (simp add: capture_frame_hw_def Let_def split_beta fold_views)

lemma capture_frame_hw_enable_fail:
  assumes "\<not> enable_ok h c"
  shows "fst (capture_frame_hw rh h c b) = s_stream_ret h"
    and "fst (snd (capture_frame_hw rh h c b)) = VB2_BUF_STATE_ERROR"
    and "capture_state (snd (snd (capture_frame_hw rh h c b))) = CAPTURE_ERROR"
    and "recoveries (trace (snd (snd (capture_frame_hw rh h c b)))) = recoveries (trace c)"
  using assms
  by (auto simp add: capture_frame_hw_def Let_def split_beta fold_fields enable_ok_def
      tegra_channel_enable_stream_ret)

lemma capture_frame_hw_timeout:
  assumes "enable_ok h c" "\<exists>i<valid_ports c. syncpt_wait h i \<noteq> 0"
  shows "fst (capture_frame_hw rh h c b) = 0"
    and "fst (snd (capture_frame_hw rh h c b)) = VB2_BUF_STATE_ERROR"
    and "capture_state (snd (snd (capture_frame_hw rh h c b))) = CAPTURE_TIMEOUT"
    and "recoveries (trace (snd (snd (capture_frame_hw rh h c b)))) =
           recoveries (trace c) @ map (\<lambda>i. port c ! i) [0..<valid_ports c]"
proof -
  have ex: "\<exists>i\<in>set [0..<valid_ports c]. syncpt_wait h i \<noteq> 0" using assms(2) by auto
  note to = syncpt_wait_loop_timeout [OF ex, of rh]
  show "fst (capture_frame_hw rh h c b) = 0"
    using assms(1)
    by (auto simp add: capture_frame_hw_def Let_def split_beta fold_fields enable_ok_def
      tegra_channel_enable_stream_ret)
  show "fst (snd (capture_frame_hw rh h c b)) = VB2_BUF_STATE_ERROR"
    using assms(1) to
    by (auto simp add: capture_frame_hw_def Let_def split_beta fold_fields enable_ok_def
      tegra_channel_enable_stream_ret)
  show "capture_state (snd (snd (capture_frame_hw rh h c b))) = CAPTURE_TIMEOUT"
    using assms(1) to
    by (auto simp add: capture_frame_hw_def Let_def split_beta fold_fields enable_ok_def
      tegra_channel_enable_stream_ret)
  show "recoveries (trace (snd (snd (capture_frame_hw rh h c b)))) =
           recoveries (trace c) @ map (\<lambda>i. port c ! i) [0..<valid_ports c]"
    using assms(1) to
    by (auto simp add: capture_frame_hw_def Let_def split_beta fold_fields enable_ok_def
      tegra_channel_enable_stream_ret)
qed


lemma capture_frame_hw_error:
  assumes "enable_ok h c" "\<forall>i<valid_ports c. syncpt_wait h i = 0" "\<not> pg_mode c"
    "fst (tegra_channel_error_status h c) \<noteq> 0"
  shows "fst (capture_frame_hw rh h c b) = 0"
    and "fst (snd (capture_frame_hw rh h c b)) = VB2_BUF_STATE_ERROR"
    and "capture_state (snd (snd (capture_frame_hw rh h c b))) = CAPTURE_ERROR"
    and "recoveries (trace (snd (snd (capture_frame_hw rh h c b)))) = recoveries (trace c)"
proof -
  have al: "\<forall>i\<in>set [0..<valid_ports c]. syncpt_wait h i = 0" using assms(2) by auto
  note ok = syncpt_wait_loop_ok [OF al, of "tegra_channel_ec_recover rh h"]
  have es: "fst (tegra_channel_error_status h c') \<noteq> 0" if "hw_view c' = hw_view c" for c'
    using tegra_channel_error_status_ret [OF that, of h] assms(4) by simp
  show "fst (capture_frame_hw rh h c b) = 0"
    using assms(1)
    by (auto simp add: capture_frame_hw_def Let_def split_beta fold_fields enable_ok_def
      tegra_channel_enable_stream_ret)
  show "fst (snd (capture_frame_hw rh h c b)) = VB2_BUF_STATE_ERROR"
    using assms(1,3) ok es
    by (auto simp add: capture_frame_hw_def Let_def split_beta fold_fields enable_ok_def
      tegra_channel_enable_stream_ret)
  show "capture_state (snd (snd (capture_frame_hw rh h c b))) = CAPTURE_ERROR"
    using assms(1,3) ok es
    by (auto simp add: capture_frame_hw_def Let_def split_beta fold_fields enable_ok_def
      tegra_channel_enable_stream_ret)
  show "recoveries (trace (snd (snd (capture_frame_hw rh h c b)))) = recoveries (trace c)"
    using assms(1,3) ok es
    by (auto simp add: capture_frame_hw_def Let_def split_beta fold_fields enable_ok_def
      tegra_channel_enable_stream_ret)
qed

lemma capture_frame_hw_good:
  assumes "enable_ok h c" "\<forall>i<valid_ports c. syncpt_wait h i = 0"
    "pg_mode c \<or> fst (tegra_channel_error_status h c) = 0"
  shows "fst (capture_frame_hw rh h c b) = 0"
    and "fst (snd (capture_frame_hw rh h c b)) = VB2_BUF_STATE_DONE"
    and "capture_state (snd (snd (capture_frame_hw rh h c b))) = CAPTURE_GOOD"
    and "recoveries (trace (snd (snd (capture_frame_hw rh h c b)))) = recoveries (trace c)"
proof -
  have al: "\<forall>i\<in>set [0..<valid_ports c]. syncpt_wait h i = 0" using assms(2) by auto
  note ok = syncpt_wait_loop_ok [OF al, of "tegra_channel_ec_recover rh h"]
  have es: "fst (tegra_channel_error_status h c') = 0" if "hw_view c' = hw_view c" "\<not> pg_mode c" for c'
    using tegra_channel_error_status_ret [OF that(1), of h] assms(3) that(2) by simp
  show "fst (capture_frame_hw rh h c b) = 0"
    using assms(1)
    by (auto simp add: capture_frame_hw_def Let_def split_beta fold_fields enable_ok_def
      tegra_channel_enable_stream_ret)
  show "fst (snd (capture_frame_hw rh h c b)) = VB2_BUF_STATE_DONE"
    using assms(1) ok es
    by (auto simp add: capture_frame_hw_def Let_def split_beta fold_fields enable_ok_def
      tegra_channel_enable_stream_ret)
  show "capture_state (snd (snd (capture_frame_hw rh h c b))) = CAPTURE_GOOD"
    using assms(1) ok es
    by (auto simp add: capture_frame_hw_def Let_def split_beta fold_fields enable_ok_def
      tegra_channel_enable_stream_ret)
  show "recoveries (trace (snd (snd (capture_frame_hw rh h c b)))) = recoveries (trace c)"
    using assms(1) ok es
    by (auto simp add: capture_frame_hw_def Let_def split_beta fold_fields enable_ok_def
      tegra_channel_enable_stream_ret)
qed

section \<open>Frame-start acknowledgement on the ring\<close>

lemma env_view_fields:
  assumes "env_view c' = env_view c"
  shows "capture_state c' = capture_state c" "is_streaming c' = is_streaming c"
    "recoveries (trace c') = recoveries (trace c)" "capture c' = capture c"
    "cfg_view c' = cfg_view c" "thread_view c' = thread_view c"
    "kthread_err c' = kthread_err c" "kthread_capture_start c' = kthread_capture_start c"
    "bypass c' = bypass c" "pg_mode c' = pg_mode c" "valid_ports c' = valid_ports c"
    "port c' = port c" "requested_kbyteps c' = requested_kbyteps c"
    "requested_hz c' = requested_hz c" "format c' = format c" "syncpoint_fifo c' = syncpoint_fifo c"
  using assms by (simp_all add: views)

lemma ring_view_cong:
  assumes "ring_view c' = ring_view c"
  shows "ring_wf n c' = ring_wf n c" "ring_slots c' = ring_slots c" "ring_bufs c' = ring_bufs c"
    "ring_states c' = ring_states c"
  using assms by (simp_all add: ring_view_def ring_wf_def ring_slots_def ring_bufs_def ring_states_def)

lemma update_state_to_buffer_keeps [simp]:
  "ring_wf n (update_state_to_buffer c st) = ring_wf n c"
  "ring_slots (update_state_to_buffer c st) = ring_slots c"
  "ring_bufs (update_state_to_buffer c st) = ring_bufs c"
  "trace (update_state_to_buffer c st) = trace c"
  "env_view (update_state_to_buffer c st) = env_view c"
  "num_buffers (update_state_to_buffer c st) = num_buffers c"
  "released_bufs (update_state_to_buffer c st) = released_bufs c"
  "bfirst_fstart (update_state_to_buffer c st) = bfirst_fstart c"
  "capture_state (update_state_to_buffer c st) = capture_state c"
  "capture (update_state_to_buffer c st) = capture c"
  by (simp_all add: update_state_to_buffer_eq ring_wf_def ring_slots_def ring_bufs_def views)

lemma set_bfirst_keeps [simp]:
  "ring_wf n (c\<lparr>bfirst_fstart := x\<rparr>) = ring_wf n c"
  "ring_slots (c\<lparr>bfirst_fstart := x\<rparr>) = ring_slots c"
  "ring_bufs (c\<lparr>bfirst_fstart := x\<rparr>) = ring_bufs c"
  "ring_states (c\<lparr>bfirst_fstart := x\<rparr>) = ring_states c"
  "env_view (c\<lparr>bfirst_fstart := x\<rparr>) = env_view c"
  by (simp_all add: ring_wf_def ring_slots_def ring_bufs_def ring_states_def views)

lemma init_ring_buffer_keeps [simp]:
  "trace (tegra_channel_init_ring_buffer c) = trace c"
  "env_view (tegra_channel_init_ring_buffer c) = env_view c"
  "capture_state (tegra_channel_init_ring_buffer c) = capture_state c"
  "capture (tegra_channel_init_ring_buffer c) = capture c"
  "num_buffers (tegra_channel_init_ring_buffer c) = 0"
  "released_bufs (tegra_channel_init_ring_buffer c) = 0"
  "bfirst_fstart (tegra_channel_init_ring_buffer c) = False"
  "ring_bufs (tegra_channel_init_ring_buffer c) = []"
  "ring_states (tegra_channel_init_ring_buffer c) = []"
  by (simp_all add: tegra_channel_init_ring_buffer_def views ring_bufs_def ring_states_def ring_slots_def)

lemma init_ring_buffer_wf:
  "length (buffers c) = 4 \<Longrightarrow> length (buffer_state c) = 4 \<Longrightarrow>
   ring_wf n (tegra_channel_init_ring_buffer c)"
  by (simp add: tegra_channel_init_ring_buffer_def ring_wf_def)

lemma tegra_channel_ring_buffer_env [simp]:
  "env_view (tegra_channel_ring_buffer c st) = env_view c"
  by (simp add: tegra_channel_ring_buffer_def Let_def free_ring_buffers_env
      free_ring_buffers_body_env)

lemmas ring_buffer_fields [simp] = env_view_fields [OF tegra_channel_ring_buffer_env]

lemma tegra_channel_ring_buffer_flush:
  assumes "ring_wf 3 c" "capture_state c \<noteq> CAPTURE_GOOD"
  shows "completions (trace (tegra_channel_ring_buffer c st)) =
           completions (trace c) @ map (\<lambda>v. (v, VB2_BUF_STATE_ERROR)) (ring_bufs c)"
    and "ring_wf 0 (tegra_channel_ring_buffer c st)"
    and "ring_bufs (tegra_channel_ring_buffer c st) = []"
    and "num_buffers (tegra_channel_ring_buffer c st) = 0"
proof -
  define c' where "c' = (if \<not> bfirst_fstart c then c\<lparr>bfirst_fstart := True\<rparr>
                        else update_state_to_buffer c st)"
  have wf: "ring_wf 4 c'" using assms(1) ring_wf_mono [of 3 c 4] by (simp add: c'_def)
  have cs: "capture_state c' \<noteq> CAPTURE_GOOD" using assms(2) by (simp add: c'_def)
  have rb: "ring_bufs c' = ring_bufs c" and tr: "trace c' = trace c" by (simp_all add: c'_def)
  have eq: "tegra_channel_ring_buffer c st =
      tegra_channel_init_ring_buffer (free_ring_buffers c' (unat (num_buffers c')))"
    using cs by (simp add: tegra_channel_ring_buffer_def Let_def c'_def)
  note fl = free_ring_buffers_flush [OF wf refl cs]
  show "completions (trace (tegra_channel_ring_buffer c st)) =
           completions (trace c) @ map (\<lambda>v. (v, VB2_BUF_STATE_ERROR)) (ring_bufs c)"
    using fl by (simp add: eq rb tr)
  have "ring_wf 0 (free_ring_buffers c' (unat (num_buffers c')))" using fl by simp
  then have "length (buffers (free_ring_buffers c' (unat (num_buffers c')))) = 4"
    "length (buffer_state (free_ring_buffers c' (unat (num_buffers c')))) = 4"
    by (simp_all add: ring_wf_def)
  then show "ring_wf 0 (tegra_channel_ring_buffer c st)"
    by (simp add: eq init_ring_buffer_wf)
  show "ring_bufs (tegra_channel_ring_buffer c st) = []" by (simp add: eq)
  show "num_buffers (tegra_channel_ring_buffer c st) = 0" by (simp add: eq)
qed

lemma tegra_channel_ring_buffer_good:
  assumes "ring_wf 3 c" "capture_state c = CAPTURE_GOOD"
  shows "ring_wf 2 (tegra_channel_ring_buffer c st)"
    and "map fst (completions (trace (tegra_channel_ring_buffer c st)))
           @ ring_bufs (tegra_channel_ring_buffer c st) =
         map fst (completions (trace c)) @ ring_bufs c"
proof -
  define c' where "c' = (if \<not> bfirst_fstart c then c\<lparr>bfirst_fstart := True\<rparr>
                        else update_state_to_buffer c st)"
  have wf: "ring_wf 3 c'" using assms(1) by (simp add: c'_def)
  have cs: "capture_state c' = CAPTURE_GOOD" using assms(2) by (simp add: c'_def)
  have rb: "ring_bufs c' = ring_bufs c" and tr: "trace c' = trace c" by (simp_all add: c'_def)
  have eq: "tegra_channel_ring_buffer c st =
      (if 3 \<le> unat (num_buffers c') then free_ring_buffers_body c' else c')"
    using cs by (simp add: tegra_channel_ring_buffer_def Let_def c'_def QUEUED_BUFFERS_def
        word_le_nat_alt)
  show "ring_wf 2 (tegra_channel_ring_buffer c st)"
  proof (cases "3 \<le> unat (num_buffers c')")
    case True
    then have pos: "0 < unat (num_buffers c')" by simp
    from free_ring_buffers_body_wf [OF wf pos] show ?thesis using True by (simp add: eq)
  next
    case False
    then show ?thesis using wf by (simp add: eq ring_wf_def)
  qed
  show "map fst (completions (trace (tegra_channel_ring_buffer c st)))
           @ ring_bufs (tegra_channel_ring_buffer c st) =
         map fst (completions (trace c)) @ ring_bufs c"
  proof (cases "3 \<le> unat (num_buffers c')")
    case True
    then have pos: "0 < unat (num_buffers c')" by simp
    have wf4: "ring_wf 4 c'" using wf ring_wf_mono [of 3 c' 4] by simp
    show ?thesis using True
      by (simp add: eq free_ring_buffers_body_trace [OF wf]
          free_ring_buffers_body_bufs(1) [OF wf4 pos] rb [symmetric] tr [symmetric])
  next
    case False
    then show ?thesis by (simp add: eq rb tr)
  qed
qed

lemma dequeue_buffer_Some:
  assumes "dequeue_buffer c = (Some b, c1)"
  shows "c1 = add_buffer_to_ring (c\<lparr>capture := tl (capture c)\<rparr>) (buf b)"
    and "capture c = b # tl (capture c)"
  using assms by (auto simp: dequeue_buffer_def split: list.splits)

lemma set_capture_keeps [simp]:
  "ring_wf n (c\<lparr>capture := x\<rparr>) = ring_wf n c"
  "ring_bufs (c\<lparr>capture := x\<rparr>) = ring_bufs c"
  "ring_states (c\<lparr>capture := x\<rparr>) = ring_states c"
  by (simp_all add: ring_wf_def ring_slots_def ring_bufs_def ring_states_def)

lemma dequeued:
  assumes "ring_wf 2 c" "dequeue_buffer c = (Some b, c1)"
  shows "ring_wf 3 c1" "ring_bufs c1 = ring_bufs c @ [buf b]"
    "ring_states c1 = ring_states c @ [VB2_BUF_STATE_ERROR]"
    "trace c1 = trace c" "port c1 = port c" "valid_ports c1 = valid_ports c"
    "capture c1 = tl (capture c)" "bfirst_fstart c1 = bfirst_fstart c"
    "released_bufs c1 = released_bufs c" "pg_mode c1 = pg_mode c" "is_streaming c1 = is_streaming c"
    "cfg_view c1 = cfg_view c" "kthread_capture_start c1 = kthread_capture_start c"
proof -
  note c1 = dequeue_buffer_Some(1) [OF assms(2)]
  have wf: "ring_wf 2 (c\<lparr>capture := tl (capture c)\<rparr>)" using assms(1) by simp
  show "ring_wf 3 c1" unfolding c1 using wf by (rule add_buffer_to_ring_wf)
  show "ring_bufs c1 = ring_bufs c @ [buf b]"
    unfolding c1 using add_buffer_to_ring_bufs(1) [OF wf] by simp
  show "ring_states c1 = ring_states c @ [VB2_BUF_STATE_ERROR]"
    unfolding c1 using add_buffer_to_ring_bufs(2) [OF wf] by simp
  show "trace c1 = trace c" "port c1 = port c" "valid_ports c1 = valid_ports c"
    "capture c1 = tl (capture c)" "bfirst_fstart c1 = bfirst_fstart c"
    "released_bufs c1 = released_bufs c" "pg_mode c1 = pg_mode c" "is_streaming c1 = is_streaming c"
    "cfg_view c1 = cfg_view c" "kthread_capture_start c1 = kthread_capture_start c"
    unfolding c1 by (simp_all add: add_buffer_to_ring_eq views)
qed

lemma capture_frame_flush:
  assumes "ring_wf 3 c1" "capture_state (snd (snd (capture_frame_hw rh h c1 b))) \<noteq> CAPTURE_GOOD"
  shows "completions (trace (snd (tegra_channel_capture_frame rh h c1 b))) =
           completions (trace c1) @ map (\<lambda>v. (v, VB2_BUF_STATE_ERROR)) (ring_bufs c1)"
    and "capture_state (snd (tegra_channel_capture_frame rh h c1 b)) =
           capture_state (snd (snd (capture_frame_hw rh h c1 b)))"
    and "recoveries (trace (snd (tegra_channel_capture_frame rh h c1 b))) =
           recoveries (trace (snd (snd (capture_frame_hw rh h c1 b))))"
    and "ring_wf 0 (snd (tegra_channel_capture_frame rh h c1 b))"
    and "num_buffers (snd (tegra_channel_capture_frame rh h c1 b)) = 0"
proof -
  let ?x = "snd (snd (capture_frame_hw rh h c1 b))"
  have hv: "hw_view ?x = hw_view c1" by simp
  note rv = hw_view_fields(1) [OF hv]
  have wf: "ring_wf 3 ?x" using assms(1) ring_view_cong(1) [OF rv] by simp
  note fl = tegra_channel_ring_buffer_flush [OF wf assms(2)]
  show "completions (trace (snd (tegra_channel_capture_frame rh h c1 b))) =
           completions (trace c1) @ map (\<lambda>v. (v, VB2_BUF_STATE_ERROR)) (ring_bufs c1)"
    using fl(1) by (simp add: tegra_channel_capture_frame_eq ring_view_cong(3) [OF rv]
        hw_view_fields(19) [OF hv])
  show "capture_state (snd (tegra_channel_capture_frame rh h c1 b)) = capture_state ?x"
    by (simp add: tegra_channel_capture_frame_eq)
  show "recoveries (trace (snd (tegra_channel_capture_frame rh h c1 b))) = recoveries (trace ?x)"
    by (simp add: tegra_channel_capture_frame_eq)
  show "ring_wf 0 (snd (tegra_channel_capture_frame rh h c1 b))"
    using fl(2) by (simp add: tegra_channel_capture_frame_eq)
  show "num_buffers (snd (tegra_channel_capture_frame rh h c1 b)) = 0"
    using fl(4) by (simp add: tegra_channel_capture_frame_eq)
qed

lemma slot_prev:
  assumes "f < 4" "n \<le> 3" "k < n"
  shows "((f + k) mod 4 = ((f + n) mod 4 + 2) mod (4::nat)) = (k + 2 = n)"
proof -
  from assms have "f = 0 \<or> f = 1 \<or> f = 2 \<or> f = 3" by linarith
  moreover from assms have "n = 1 \<or> n = 2 \<or> n = 3" by linarith
  moreover from assms have "k = 0 \<or> k = 1 \<or> k = 2" by linarith
  ultimately show ?thesis using assms(3) by (elim disjE; simp)
qed

lemma length_ring [simp]:
  "length (ring_slots c) = unat (num_buffers c)"
  "length (ring_bufs c) = unat (num_buffers c)"
  "length (ring_states c) = unat (num_buffers c)"
  by (simp_all add: ring_slots_def ring_bufs_def ring_states_def)

lemma update_state_to_buffer_states:
  assumes "ring_wf 3 c" "capture_state c = CAPTURE_GOOD"
  shows "ring_states (update_state_to_buffer c st) =
           (if 2 \<le> unat (num_buffers c) then (ring_states c)[unat (num_buffers c) - 2 := st]
            else ring_states c)"
proof (rule nth_equalityI)
  show "length (ring_states (update_state_to_buffer c st)) =
        length (if 2 \<le> unat (num_buffers c) then (ring_states c)[unat (num_buffers c) - 2 := st]
            else ring_states c)" by simp
next
  fix k assume "k < length (ring_states (update_state_to_buffer c st))"
  then have k: "k < unat (num_buffers c)" by simp
  from assms have f: "unat (free_index c) < 4" and n: "unat (num_buffers c) \<le> 3"
    and s: "unat (save_index c) < 4" and l: "length (buffer_state c) = 4"
    and sv: "unat (save_index c) = (unat (free_index c) + unat (num_buffers c)) mod 4"
    by (simp_all add: ring_wf_def)
  have bs: "buffer_state (update_state_to_buffer c st) =
      (buffer_state c)[(unat (save_index c) + 2) mod 4 := st]"
    using assms(2) by (simp add: update_state_to_buffer_eq previous_slot [OF s])
  define j where "j = (unat (save_index c) + 2) mod 4"
  define i where "i = (unat (free_index c) + k) mod 4"
  have i4: "i < length (buffer_state c)" using l by (simp add: i_def)
  have "ring_states (update_state_to_buffer c st) ! k = buffer_state (update_state_to_buffer c st) ! i"
    using k by (simp add: ring_states_def) (simp add: ring_slots_def i_def)
  also have "\<dots> = (buffer_state c)[j := st] ! i" by (simp only: bs j_def)
  also have "\<dots> = (if j = i then st else buffer_state c ! i)"
    using i4 by (simp add: nth_list_update)
  finally have lhs: "ring_states (update_state_to_buffer c st) ! k =
      (if i = j then st else buffer_state c ! i)" by auto
  have ij: "(i = j) = (k + 2 = unat (num_buffers c))"
    unfolding i_def j_def sv using slot_prev [OF f n k] by simp
  have rhs: "(if 2 \<le> unat (num_buffers c) then (ring_states c)[unat (num_buffers c) - 2 := st]
            else ring_states c) ! k =
      (if k + 2 = unat (num_buffers c) then st
       else buffer_state c ! ((unat (free_index c) + k) mod 4))"
    using k by (auto simp add: nth_list_update ring_states_def ring_slots_def)
  show "ring_states (update_state_to_buffer c st) ! k =
      (if 2 \<le> unat (num_buffers c) then (ring_states c)[unat (num_buffers c) - 2 := st]
            else ring_states c) ! k"
    unfolding lhs rhs ij by (simp add: i_def)
qed

lemma free_ring_buffers_body_state:
  assumes "ring_wf 3 c" "0 < unat (num_buffers c)"
  shows "completions (trace (free_ring_buffers_body c)) =
     completions (trace c) @
       [(hd (ring_bufs c),
         if capture_state c \<noteq> CAPTURE_GOOD \<or> released_bufs c < 2 then VB2_BUF_STATE_ERROR
         else hd (ring_states c))]"
proof -
  from assms have f: "unat (free_index c) < 4" by (simp add: ring_wf_def)
  have wf4: "ring_wf 4 c" using assms(1) ring_wf_mono [of 3 c 4] by simp
  have "hd (ring_bufs c) = buffers c ! unat (free_index c)"
    using free_ring_buffers_body_bufs(1) [OF wf4 assms(2)] by simp
  moreover have "hd (ring_states c) = buffer_state c ! unat (free_index c)"
    using free_ring_buffers_body_slots [OF assms] by (simp add: ring_states_def)
  ultimately show ?thesis by (simp add: free_ring_buffers_body_trace [OF assms(1)])
qed

text \<open>The frame-start acknowledgement while the capture state is good.\<close>

lemma tegra_channel_ring_buffer_steady:
  assumes "ring_wf 3 c" "capture_state c = CAPTURE_GOOD" "bfirst_fstart c"
    "ring_bufs c = [p, q, r]" "ring_states c = [sp, sq, sr]"
  shows "completions (trace (tegra_channel_ring_buffer c st)) =
           completions (trace c) @
             [(p, if released_bufs c < 2 then VB2_BUF_STATE_ERROR else sp)]"
    and "ring_bufs (tegra_channel_ring_buffer c st) = [q, r]"
    and "ring_states (tegra_channel_ring_buffer c st) = [st, sr]"
    and "released_bufs (tegra_channel_ring_buffer c st) = released_bufs c + 1"
    and "bfirst_fstart (tegra_channel_ring_buffer c st)"
proof -
  define c' where "c' = update_state_to_buffer c st"
  have n: "unat (num_buffers c) = 3" using assms(4) length_ring(2) [of c] by simp
  have wf: "ring_wf 3 c'" using assms(1) by (simp add: c'_def)
  have wf4: "ring_wf 4 c'" using wf ring_wf_mono [of 3 c' 4] by simp
  have n': "unat (num_buffers c') = 3" using n by (simp add: c'_def)
  have pos: "0 < unat (num_buffers c')" using n' by simp
  have cs: "capture_state c' = CAPTURE_GOOD" using assms(2) by (simp add: c'_def)
  have rb: "ring_bufs c' = [p, q, r]" using assms(4) by (simp add: c'_def)
  have rs: "ring_states c' = [sp, st, sr]"
    using update_state_to_buffer_states [OF assms(1,2), of st] n assms(5) by (simp add: c'_def)
  have eq: "tegra_channel_ring_buffer c st = free_ring_buffers_body c'"
    using cs n' assms(3)
    by (simp add: tegra_channel_ring_buffer_def Let_def c'_def [symmetric] QUEUED_BUFFERS_def
        word_le_nat_alt)
  show "completions (trace (tegra_channel_ring_buffer c st)) =
           completions (trace c) @
             [(p, if released_bufs c < 2 then VB2_BUF_STATE_ERROR else sp)]"
    using free_ring_buffers_body_state [OF wf pos] cs rb rs by (simp add: eq) (simp add: c'_def)
  show "ring_bufs (tegra_channel_ring_buffer c st) = [q, r]"
    using free_ring_buffers_body_bufs(1) [OF wf4 pos] rb by (simp add: eq)
  show "ring_states (tegra_channel_ring_buffer c st) = [st, sr]"
    using free_ring_buffers_body_bufs(2) [OF wf4 pos] rs by (simp add: eq)
  show "released_bufs (tegra_channel_ring_buffer c st) = released_bufs c + 1"
    by (simp add: eq free_ring_buffers_body_env) (simp add: c'_def)
  show "bfirst_fstart (tegra_channel_ring_buffer c st)"
    using assms(3) by (simp add: eq free_ring_buffers_body_env) (simp add: c'_def)
qed

section \<open>The capture thread, the stop and the start of the stream\<close>

lemma capture_frame_ring:
  assumes "ring_wf 3 c1"
  shows "ring_wf 2 (snd (tegra_channel_capture_frame rh h c1 b))"
    and "map fst (completions (trace (snd (tegra_channel_capture_frame rh h c1 b))))
           @ ring_bufs (snd (tegra_channel_capture_frame rh h c1 b)) =
         map fst (completions (trace c1)) @ ring_bufs c1"
    and "thread_view (snd (tegra_channel_capture_frame rh h c1 b)) = thread_view c1"
    and "cfg_view (snd (tegra_channel_capture_frame rh h c1 b)) = cfg_view c1"
proof -
  let ?x = "snd (snd (capture_frame_hw rh h c1 b))"
  let ?st = "fst (snd (capture_frame_hw rh h c1 b))"
  have hv: "hw_view ?x = hw_view c1" by simp
  note rv = hw_view_fields(1) [OF hv]
  have wf: "ring_wf 3 ?x" using assms(1) ring_view_cong(1) [OF rv] by simp
  have eq: "snd (tegra_channel_capture_frame rh h c1 b) = tegra_channel_ring_buffer ?x ?st"
    by (simp add: tegra_channel_capture_frame_eq)
  show "thread_view (snd (tegra_channel_capture_frame rh h c1 b)) = thread_view c1"
    by (simp add: eq hw_view_fields(3) [OF hv])
  show "cfg_view (snd (tegra_channel_capture_frame rh h c1 b)) = cfg_view c1"
    by (simp add: eq hw_view_fields(2) [OF hv])
  show "ring_wf 2 (snd (tegra_channel_capture_frame rh h c1 b))"
  proof (cases "capture_state ?x = CAPTURE_GOOD")
    case True
    from tegra_channel_ring_buffer_good(1) [OF wf True] show ?thesis by (simp add: eq)
  next
    case False
    from tegra_channel_ring_buffer_flush(2) [OF wf False, of ?st] show ?thesis
      unfolding eq by (rule ring_wf_mono) simp
  qed
  show "map fst (completions (trace (snd (tegra_channel_capture_frame rh h c1 b))))
           @ ring_bufs (snd (tegra_channel_capture_frame rh h c1 b)) =
         map fst (completions (trace c1)) @ ring_bufs c1"
  proof (cases "capture_state ?x = CAPTURE_GOOD")
    case True
    from tegra_channel_ring_buffer_good(2) [OF wf True, of ?st] show ?thesis
      by (simp add: eq ring_view_cong(3) [OF rv] hw_view_fields(19) [OF hv])
  next
    case False
    from tegra_channel_ring_buffer_flush(1,3) [OF wf False, of ?st] show ?thesis
      by (simp add: eq ring_view_cong(3) [OF rv] hw_view_fields(19) [OF hv] comp_def)
  qed
qed

lemma views_fields:
  "thread_view c' = thread_view c \<Longrightarrow> capture c' = capture c"
  "thread_view c' = thread_view c \<Longrightarrow> kthread_capture_start c' = kthread_capture_start c"
  "cfg_view c' = cfg_view c \<Longrightarrow> bypass c' = bypass c"
  by (simp_all add: views)

lemma accounted_cong:
  "completions (trace c') = completions (trace c) \<Longrightarrow> ring_bufs c' = ring_bufs c \<Longrightarrow>
   capture c' = capture c \<Longrightarrow> accounted c' = accounted c"
  by (simp add: accounted_def)

lemma kthread_capture_iteration_ring:
  assumes "ring_wf 2 c"
  shows "ring_wf 2 (kthread_capture_iteration rh h c)"
    and "accounted (kthread_capture_iteration rh h c) = accounted c"
    and "kthread_capture_start (kthread_capture_iteration rh h c) = kthread_capture_start c"
    and "bypass (kthread_capture_iteration rh h c) = bypass c"
proof -
  consider (idle) "kthread_err c \<noteq> 0 \<or> capture c = []"
    | (frame) b rest where "kthread_err c = 0" "capture c = b # rest"
    by (cases "capture c") auto
  then have "ring_wf 2 (kthread_capture_iteration rh h c) \<and>
     accounted (kthread_capture_iteration rh h c) = accounted c \<and>
     kthread_capture_start (kthread_capture_iteration rh h c) = kthread_capture_start c \<and>
     bypass (kthread_capture_iteration rh h c) = bypass c"
  proof cases
    case idle
    then have "kthread_capture_iteration rh h c = c"
      by (auto simp: kthread_capture_iteration_def dequeue_buffer_def)
    then show ?thesis using assms by simp
  next
    case frame
    define c1 where "c1 = add_buffer_to_ring (c\<lparr>capture := rest\<rparr>) (buf b)"
    have dq: "dequeue_buffer c = (Some b, c1)" by (simp add: dequeue_buffer_def frame(2) c1_def)
    note d = dequeued [OF assms dq]
    let ?r = "snd (tegra_channel_capture_frame rh h c1 b)"
    have k: "kthread_capture_iteration rh h c =
        ?r\<lparr>kthread_err := fst (tegra_channel_capture_frame rh h c1 b)\<rparr>"
      by (simp add: kthread_capture_iteration_def dq frame(1) split_beta)
    note r = capture_frame_ring [OF d(1), of rh h b]
    have wf: "ring_wf 2 (kthread_capture_iteration rh h c)"
      using r(1) by (simp add: k ring_wf_def)
    have cap: "capture ?r = rest" using views_fields(1) [OF r(3)] d(7) frame(2) by simp
    have "accounted ?r = map fst (completions (trace c1)) @ ring_bufs c1 @ map buf rest"
      using r(2) by (simp add: accounted_def cap)
    also have "\<dots> = accounted c" by (simp add: accounted_def d(2,4) frame(2))
    finally have acc: "accounted (kthread_capture_iteration rh h c) = accounted c"
      by (simp add: k accounted_def ring_bufs_def ring_slots_def)
    have kt: "kthread_capture_start (kthread_capture_iteration rh h c) = kthread_capture_start c"
      using views_fields(2) [OF r(3)] d(13) by (simp add: k)
    have byp: "bypass (kthread_capture_iteration rh h c) = bypass c"
      using views_fields(3) [OF r(4)] views_fields(3) [OF d(12)] by (simp add: k)
    show ?thesis using wf acc kt byp by simp
  qed
  then show "ring_wf 2 (kthread_capture_iteration rh h c)"
    and "accounted (kthread_capture_iteration rh h c) = accounted c"
    and "kthread_capture_start (kthread_capture_iteration rh h c) = kthread_capture_start c"
    and "bypass (kthread_capture_iteration rh h c) = bypass c"
    by simp_all
qed

lemmas fold_bypass = fold_field [where sel = bypass]
lemmas fold_cfg_view = fold_field [where sel = cfg_view]
lemmas fold_ring_view = fold_field [where sel = ring_view]
lemmas fold_capture = fold_field [where sel = capture]
lemmas fold_all = fold_fields fold_bypass fold_cfg_view fold_ring_view fold_capture

lemma emit_more [simp]:
  "bypass (emit es c) = bypass c"
  "cfg_view (emit es c) = cfg_view c"
  "capture (emit es c) = capture c"
  "completions es = [] \<Longrightarrow> ring_view (emit es c) = ring_view c"
  "completions (trace (emit es c)) = completions (trace c) @ completions es"
  "kthread_capture_start (emit es c) = kthread_capture_start c"
  "num_buffers (emit es c) = num_buffers c"
  "ring_wf n (emit es c) = ring_wf n c"
  "ring_bufs (emit es c) = ring_bufs c"
  by (simp_all add: emit_def views ring_wf_def ring_bufs_def ring_slots_def)

lemmas clear_singleshot_fields [simp] =
  hw_view_fields(1,2,4,6,7,8,10) [OF tegra_channel_clear_singleshot_views(1)]
lemmas set_stream_fields [simp] =
  hw_view_fields(1,2,4,6,7,8,10) [OF tegra_channel_set_stream_views(1)]
lemmas capture_done_program_fields [simp] =
  hw_view_fields(1,2,4,6,7,8,10) [OF capture_done_program_views(1)]
lemmas capture_setup_fields [simp] =
  hw_view_fields(1,2,4,6,7,8,10) [OF tegra_channel_capture_setup_views(1)]

lemma tegra_channel_stop_kthreads_fields [simp]:
  "ring_view (tegra_channel_stop_kthreads c) = ring_view c"
  "cfg_view (tegra_channel_stop_kthreads c) = cfg_view c"
  "capture (tegra_channel_stop_kthreads c) = capture c"
  "capture_state (tegra_channel_stop_kthreads c) = capture_state c"
  "is_streaming (tegra_channel_stop_kthreads c) = is_streaming c"
  "bypass (tegra_channel_stop_kthreads c) = bypass c"
  "pg_mode (tegra_channel_stop_kthreads c) = pg_mode c"
  "kthread_capture_start (tegra_channel_stop_kthreads c) = NoTask"
  "requested_kbyteps (tegra_channel_stop_kthreads c) = requested_kbyteps c"
  "requested_hz (tegra_channel_stop_kthreads c) = requested_hz c"
  by (simp_all add: tegra_channel_stop_kthreads_def emit_def views)

lemma tegra_channel_queued_buf_done_fields [simp]:
  "completions (trace (tegra_channel_queued_buf_done c st)) =
     completions (trace c) @ map (\<lambda>b. (buf b, st)) (capture c)"
  "capture (tegra_channel_queued_buf_done c st) = []"
  "cfg_view (tegra_channel_queued_buf_done c st) = cfg_view c"
  "bypass (tegra_channel_queued_buf_done c st) = bypass c"
  "pg_mode (tegra_channel_queued_buf_done c st) = pg_mode c"
  "ring_wf n (tegra_channel_queued_buf_done c st) = ring_wf n c"
  "ring_bufs (tegra_channel_queued_buf_done c st) = ring_bufs c"
  "num_buffers (tegra_channel_queued_buf_done c st) = num_buffers c"
  "capture_state (tegra_channel_queued_buf_done c st) = capture_state c"
  "is_streaming (tegra_channel_queued_buf_done c st) = is_streaming c"
  "kthread_capture_start (tegra_channel_queued_buf_done c st) = kthread_capture_start c"
  "requested_kbyteps (tegra_channel_queued_buf_done c st) = requested_kbyteps c"
  "requested_hz (tegra_channel_queued_buf_done c st) = requested_hz c"
  by (simp_all add: tegra_channel_queued_buf_done_def emit_def views ring_wf_def ring_bufs_def
      ring_slots_def completions_def comp_def)

lemma tegra_channel_update_clknbw_fields [simp]:
  "ring_view (tegra_channel_update_clknbw c on) = ring_view c"
  "capture (tegra_channel_update_clknbw c on) = capture c"
  "bypass (tegra_channel_update_clknbw c on) = bypass c"
  "pg_mode (tegra_channel_update_clknbw c on) = pg_mode c"
  "capture_state (tegra_channel_update_clknbw c on) = capture_state c"
  "is_streaming (tegra_channel_update_clknbw c on) = is_streaming c"
  "kthread_capture_start (tegra_channel_update_clknbw c on) = kthread_capture_start c"
  "ring_wf n (tegra_channel_update_clknbw c on) = ring_wf n c"
  by (simp_all add: tegra_channel_update_clknbw_def Let_def emit_def views ring_wf_def)

lemma free_ring_buffers_fields [simp]:
  "bypass (free_ring_buffers c n) = bypass c"
  "pg_mode (free_ring_buffers c n) = pg_mode c"
  "capture (free_ring_buffers c n) = capture c"
  "capture_state (free_ring_buffers c n) = capture_state c"
  "is_streaming (free_ring_buffers c n) = is_streaming c"
  "cfg_view (free_ring_buffers c n) = cfg_view c"
  "kthread_capture_start (free_ring_buffers c n) = kthread_capture_start c"
  "requested_kbyteps (free_ring_buffers c n) = requested_kbyteps c"
  "requested_hz (free_ring_buffers c n) = requested_hz c"
  using free_ring_buffers_env [of c n] by (simp_all add: views)

lemma tegra_channel_capture_done_shape:
  "capture c = [] \<Longrightarrow> tegra_channel_capture_done rh h c = c"
  "dequeue_buffer c = (Some b, c1) \<Longrightarrow>
     \<exists>x st. tegra_channel_capture_done rh h c = tegra_channel_ring_buffer x st \<and>
       hw_view x = hw_view c1 \<and> capture_state x = CAPTURE_IDLE \<and> is_streaming x = is_streaming c1"
proof -
  show "capture c = [] \<Longrightarrow> tegra_channel_capture_done rh h c = c"
    by (simp add: tegra_channel_capture_done_def dequeue_buffer_def)
  assume dq: "dequeue_buffer c = (Some b, c1)"
  let ?w = "syncpt_wait_loop h (tegra_channel_ec_recover rh h) [0..<valid_ports c1]
              0 VB2_BUF_STATE_DONE (fold (capture_done_program rh b) [0..<valid_ports c1] c1)"
  have "tegra_channel_capture_done rh h c =
     tegra_channel_ring_buffer ((snd (snd ?w))\<lparr>capture_state := CAPTURE_IDLE\<rparr>) (fst (snd ?w))"
    by (simp add: tegra_channel_capture_done_def dq Let_def split_beta fold_all)
  moreover have "hw_view ((snd (snd ?w))\<lparr>capture_state := CAPTURE_IDLE\<rparr>) = hw_view c1"
    by (simp add: fold_all)
  moreover have "is_streaming ((snd (snd ?w))\<lparr>capture_state := CAPTURE_IDLE\<rparr>) = is_streaming c1"
    by (simp add: fold_all)
  ultimately show "\<exists>x st. tegra_channel_capture_done rh h c = tegra_channel_ring_buffer x st \<and>
       hw_view x = hw_view c1 \<and> capture_state x = CAPTURE_IDLE \<and> is_streaming x = is_streaming c1"
    by (intro exI [of _ "(snd (snd ?w))\<lparr>capture_state := CAPTURE_IDLE\<rparr>"] exI [of _ "fst (snd ?w)"]) simp
qed

lemma tegra_channel_capture_done_ring:
  assumes "ring_wf 2 c"
  shows "ring_wf 2 (tegra_channel_capture_done rh h c)"
    and "accounted (tegra_channel_capture_done rh h c) = accounted c"
    and "cfg_view (tegra_channel_capture_done rh h c) = cfg_view c"
    and "kthread_capture_start (tegra_channel_capture_done rh h c) = kthread_capture_start c"
    and "is_streaming (tegra_channel_capture_done rh h c) = is_streaming c"
    and "requested_kbyteps (tegra_channel_capture_done rh h c) = requested_kbyteps c"
    and "requested_hz (tegra_channel_capture_done rh h c) = requested_hz c"
proof -
  have "ring_wf 2 (tegra_channel_capture_done rh h c) \<and>
    accounted (tegra_channel_capture_done rh h c) = accounted c \<and>
    cfg_view (tegra_channel_capture_done rh h c) = cfg_view c \<and>
    kthread_capture_start (tegra_channel_capture_done rh h c) = kthread_capture_start c \<and>
    is_streaming (tegra_channel_capture_done rh h c) = is_streaming c \<and>
    requested_kbyteps (tegra_channel_capture_done rh h c) = requested_kbyteps c \<and>
    requested_hz (tegra_channel_capture_done rh h c) = requested_hz c"
  proof (cases "capture c")
    case Nil
    then show ?thesis using assms by (simp add: tegra_channel_capture_done_shape(1))
  next
    case (Cons b rest)
    define c1 where "c1 = add_buffer_to_ring (c\<lparr>capture := rest\<rparr>) (buf b)"
    have dq: "dequeue_buffer c = (Some b, c1)" by (simp add: dequeue_buffer_def Cons c1_def)
    note d = dequeued [OF assms dq]
    from tegra_channel_capture_done_shape(2) [OF dq, of rh h] obtain x st where
      x: "tegra_channel_capture_done rh h c = tegra_channel_ring_buffer x st"
        "hw_view x = hw_view c1" "capture_state x = CAPTURE_IDLE" "is_streaming x = is_streaming c1"
      by blast
    note rv = hw_view_fields(1) [OF x(2)]
    have wf: "ring_wf 3 x" using d(1) ring_view_cong(1) [OF rv] by simp
    have ng: "capture_state x \<noteq> CAPTURE_GOOD" by (simp add: x(3))
    note fl = tegra_channel_ring_buffer_flush [OF wf ng, of st]
    have w2: "ring_wf 2 (tegra_channel_capture_done rh h c)"
      unfolding x(1) using fl(2) by (rule ring_wf_mono) simp
    have cap: "capture (tegra_channel_capture_done rh h c) = rest"
      using hw_view_fields(10) [OF x(2)] d(7) Cons by (simp add: x(1))
    have acc: "accounted (tegra_channel_capture_done rh h c) = accounted c"
      using fl(1,3) cap
      by (simp add: accounted_def x(1) ring_view_cong(3) [OF rv] hw_view_fields(19) [OF x(2)]
          d(2,4) Cons comp_def)
    have cfg: "cfg_view (tegra_channel_capture_done rh h c) = cfg_view c"
      using hw_view_fields(2) [OF x(2)] d(12) by (simp add: x(1))
    have kt: "kthread_capture_start (tegra_channel_capture_done rh h c) = kthread_capture_start c"
      using hw_view_fields(12) [OF x(2)] d(13) by (simp add: x(1))
    have iss: "is_streaming (tegra_channel_capture_done rh h c) = is_streaming c"
      using x(4) d(11) by (simp add: x(1))
    have rq: "requested_kbyteps (tegra_channel_capture_done rh h c) = requested_kbyteps c"
      "requested_hz (tegra_channel_capture_done rh h c) = requested_hz c"
      using hw_view_fields(21,22) [OF x(2)] dequeue_buffer_Some(1) [OF dq]
      by (simp_all add: x(1) add_buffer_to_ring_eq)
    show ?thesis using w2 acc cfg kt iss rq by simp
  qed
  then show "ring_wf 2 (tegra_channel_capture_done rh h c)"
    and "accounted (tegra_channel_capture_done rh h c) = accounted c"
    and "cfg_view (tegra_channel_capture_done rh h c) = cfg_view c"
    and "kthread_capture_start (tegra_channel_capture_done rh h c) = kthread_capture_start c"
    and "is_streaming (tegra_channel_capture_done rh h c) = is_streaming c"
    and "requested_kbyteps (tegra_channel_capture_done rh h c) = requested_kbyteps c"
    and "requested_hz (tegra_channel_capture_done rh h c) = requested_hz c"
    by simp_all
qed

section \<open>Verified properties\<close>

text \<open>
  C8. For every port, \<^verbatim>\<open>tegra_csi_error\<close> reads the pixel-parser, CIL and
  CIL-extended status registers and writes each value read back to its register
  (which clears every reported bit, correctable or not); its return value is zero
  exactly when none of the uncorrectable bits (pixel-parser \<open>0x4000\<close>, CIL \<open>0x02\<close>,
  CILX \<open>0x00020020\<close>) is set, and it does not depend on any other bit.
\<close>

theorem tegra_csi_error_uncorrectable_only:
  "snd (tegra_csi_error p) =
     [PpWrite TEGRA_CSI_PIXEL_PARSER_STATUS (pixel_parser_status p),
      CilWrite TEGRA_CSI_CIL_STATUS (cil_status p),
      CilWrite TEGRA_CSI_CILX_STATUS (cilx_status p)]
   \<and> (fst (tegra_csi_error p) = 0 \<longleftrightarrow>
        (pixel_parser_status p AND 0x4000 = 0 \<and> cil_status p AND 0x02 = 0 \<and>
         cilx_status p AND 0x00020020 = 0))
   \<and> fst (tegra_csi_error p) =
       fst (tegra_csi_error (p\<lparr>pixel_parser_status := pixel_parser_status p AND 0x4000,
             cil_status := cil_status p AND 0x02,
             cilx_status := cilx_status p AND 0x00020020\<rparr>))"
  by (simp add: tegra_csi_error_def Let_def and.assoc or_eq_0_iff conj_assoc)


text \<open>
  C2. When a sync point wait of \<^verbatim>\<open>tegra_channel_capture_frame\<close> times out (the
  stream having been enabled, so that the wait is reached), the capture state,
  which the function had set to \<^verbatim>\<open>CAPTURE_GOOD\<close> before waiting, ends as
  \<^verbatim>\<open>CAPTURE_TIMEOUT\<close>; \<^verbatim>\<open>tegra_csi_error_recover\<close> is called once for each valid
  port, in index order; and the in-flight buffer \<open>b\<close>, dequeued just before, is
  handed back with \<^verbatim>\<open>VB2_BUF_STATE_ERROR\<close>, after the buffers that were outstanding
  in the ring.
\<close>

theorem capture_frame_timeout_recovers:
  assumes "ring_wf 2 c" and "dequeue_buffer c = (Some b, c1)" and "enable_ok h c1"
    and "\<exists>i<valid_ports c1. syncpt_wait h i \<noteq> 0"
  shows "capture_state (snd (tegra_channel_capture_frame rh h c1 b)) = CAPTURE_TIMEOUT
       \<and> recoveries (trace (snd (tegra_channel_capture_frame rh h c1 b))) =
           recoveries (trace c1) @ map (\<lambda>i. port c1 ! i) [0..<valid_ports c1]
       \<and> completions (trace (snd (tegra_channel_capture_frame rh h c1 b))) =
           completions (trace c1) @
           map (\<lambda>v. (v, VB2_BUF_STATE_ERROR)) (ring_bufs c @ [buf b])"
proof -
  note d = dequeued [OF assms(1,2)]
  note t = capture_frame_hw_timeout [OF assms(3,4), of rh b]
  have ng: "capture_state (snd (snd (capture_frame_hw rh h c1 b))) \<noteq> CAPTURE_GOOD"
    by (simp add: t(3))
  note fl = capture_frame_flush [OF d(1) ng]
  show ?thesis by (simp add: fl(1-3) t(3,4) d(2))
qed

theorem capture_frame_timeout_recovers_witness:
  "capture_state (snd (tegra_channel_capture_frame example_headers example_hw_timeout
       (snd (dequeue_buffer (example_run 3))) (example_buf 4))) = CAPTURE_TIMEOUT
   \<and> recoveries (trace (snd (tegra_channel_capture_frame example_headers example_hw_timeout
       (snd (dequeue_buffer (example_run 3))) (example_buf 4)))) = [0]
   \<and> completions (trace (snd (tegra_channel_capture_frame example_headers example_hw_timeout
       (snd (dequeue_buffer (example_run 3))) (example_buf 4)))) =
       [(1, VB2_BUF_STATE_ERROR), (2, VB2_BUF_STATE_ERROR), (3, VB2_BUF_STATE_ERROR),
        (4, VB2_BUF_STATE_ERROR)]"
proof -
  have wf: "ring_wf 2 (example_run 3)" by code_simp
  have dq: "dequeue_buffer (example_run 3) = (Some (example_buf 4), snd (dequeue_buffer (example_run 3)))"
    by code_simp
  have en: "enable_ok example_hw_timeout (snd (dequeue_buffer (example_run 3)))" by code_simp
  have vp: "valid_ports (snd (dequeue_buffer (example_run 3))) = 1" by code_simp
  have to: "\<exists>i<valid_ports (snd (dequeue_buffer (example_run 3))). syncpt_wait example_hw_timeout i \<noteq> 0"
    unfolding vp by (simp add: example_hw_timeout_def)
  have r: "recoveries (trace (snd (dequeue_buffer (example_run 3)))) = []" by code_simp
  have p: "port (snd (dequeue_buffer (example_run 3))) ! 0 = 0" by code_simp
  have cm: "completions (trace (snd (dequeue_buffer (example_run 3)))) = [(1, VB2_BUF_STATE_ERROR)]" by code_simp
  have rb: "ring_bufs (example_run 3) = [2, 3]" by code_simp
  have b: "buf (example_buf 4) = 4" by code_simp
  show ?thesis
    using capture_frame_timeout_recovers [OF wf dq en to, of example_headers]
    by (simp add: vp r p cm rb b)
qed


text \<open>
  C3. When every sync point wait of \<^verbatim>\<open>tegra_channel_capture_frame\<close> succeeds and
  the error status check afterwards (not in test pattern mode) reports a non-zero
  aggregate error, the capture state becomes \<^verbatim>\<open>CAPTURE_ERROR\<close>, the in-flight
  buffer \<open>b\<close> is handed back with \<^verbatim>\<open>VB2_BUF_STATE_ERROR\<close>, and
  \<^verbatim>\<open>tegra_csi_error_recover\<close> is not called.
\<close>

theorem capture_frame_error_status_no_recovery:
  assumes "ring_wf 2 c" and "dequeue_buffer c = (Some b, c1)" and "enable_ok h c1"
    and "\<forall>i<valid_ports c1. syncpt_wait h i = 0" and "\<not> pg_mode c1"
    and "fst (tegra_channel_error_status h c1) \<noteq> 0"
  shows "capture_state (snd (tegra_channel_capture_frame rh h c1 b)) = CAPTURE_ERROR
       \<and> recoveries (trace (snd (tegra_channel_capture_frame rh h c1 b))) = recoveries (trace c1)
       \<and> completions (trace (snd (tegra_channel_capture_frame rh h c1 b))) =
           completions (trace c1) @
           map (\<lambda>v. (v, VB2_BUF_STATE_ERROR)) (ring_bufs c @ [buf b])"
proof -
  note d = dequeued [OF assms(1,2)]
  note t = capture_frame_hw_error [OF assms(3-6), of rh b]
  have ng: "capture_state (snd (snd (capture_frame_hw rh h c1 b))) \<noteq> CAPTURE_GOOD"
    by (simp add: t(3))
  note fl = capture_frame_flush [OF d(1) ng]
  show ?thesis by (simp add: fl(1-3) t(3,4) d(2))
qed

theorem capture_frame_error_status_no_recovery_witness:
  "capture_state (snd (tegra_channel_capture_frame example_headers example_hw_error
       (snd (dequeue_buffer (example_run 3))) (example_buf 4))) = CAPTURE_ERROR
   \<and> recoveries (trace (snd (tegra_channel_capture_frame example_headers example_hw_error
       (snd (dequeue_buffer (example_run 3))) (example_buf 4)))) = []
   \<and> completions (trace (snd (tegra_channel_capture_frame example_headers example_hw_error
       (snd (dequeue_buffer (example_run 3))) (example_buf 4)))) =
       [(1, VB2_BUF_STATE_ERROR), (2, VB2_BUF_STATE_ERROR), (3, VB2_BUF_STATE_ERROR),
        (4, VB2_BUF_STATE_ERROR)]"
proof -
  have wf: "ring_wf 2 (example_run 3)" by code_simp
  have dq: "dequeue_buffer (example_run 3) = (Some (example_buf 4), snd (dequeue_buffer (example_run 3)))"
    by code_simp
  have en: "enable_ok example_hw_error (snd (dequeue_buffer (example_run 3)))" by code_simp
  have vp: "valid_ports (snd (dequeue_buffer (example_run 3))) = 1" by code_simp
  have ok: "\<forall>i<valid_ports (snd (dequeue_buffer (example_run 3))). syncpt_wait example_hw_error i = 0"
    by (simp add: example_hw_error_def example_hw_def)
  have pg: "\<not> pg_mode (snd (dequeue_buffer (example_run 3)))" by code_simp
  have es: "fst (tegra_channel_error_status example_hw_error (snd (dequeue_buffer (example_run 3)))) \<noteq> 0"
    by code_simp
  have r: "recoveries (trace (snd (dequeue_buffer (example_run 3)))) = []" by code_simp
  have cm: "completions (trace (snd (dequeue_buffer (example_run 3)))) = [(1, VB2_BUF_STATE_ERROR)]" by code_simp
  have rb: "ring_bufs (example_run 3) = [2, 3]" by code_simp
  have b: "buf (example_buf 4) = 4" by code_simp
  show ?thesis
    using capture_frame_error_status_no_recovery [OF wf dq en ok pg es, of example_headers]
    by (simp add: r cm rb b)
qed

end
